theory Spec2Isabelle
  imports Main "HOL-Library.Product_Lexorder"
begin

section \<open>Characters and strings\<close>

text \<open>
  A Python \<^verbatim>\<open>str\<close> is modelled as a \<^typ>\<open>string\<close> (a list of 8-bit characters) and
  the character classes of \<^verbatim>\<open>str.isspace\<close>, \<^verbatim>\<open>str.lower\<close>, \<^verbatim>\<open>str.upper\<close> and of the
  \<^verbatim>\<open>re\<close> module (\<^verbatim>\<open>\s\<close>, \<^verbatim>\<open>\d\<close>, \<^verbatim>\<open>\w\<close>, \<^verbatim>\<open>\b\<close>) are those of the ASCII range: the model
  covers ASCII text, and a character above 127 is taken as a symbol that is neither a
  letter, a digit nor white space.
\<close>

definition is_space :: "char \<Rightarrow> bool" where
  "is_space c = (let n = (of_char c :: nat) in (9 \<le> n \<and> n \<le> 13) \<or> (28 \<le> n \<and> n \<le> 32))"

definition is_digit :: "char \<Rightarrow> bool" where
  "is_digit c = (let n = (of_char c :: nat) in 48 \<le> n \<and> n \<le> 57)"

definition is_upper :: "char \<Rightarrow> bool" where
  "is_upper c = (let n = (of_char c :: nat) in 65 \<le> n \<and> n \<le> 90)"

definition is_lower :: "char \<Rightarrow> bool" where
  "is_lower c = (let n = (of_char c :: nat) in 97 \<le> n \<and> n \<le> 122)"

definition is_alnum :: "char \<Rightarrow> bool" where
  "is_alnum c = (is_upper c \<or> is_lower c \<or> is_digit c)"

text \<open>The class \<^verbatim>\<open>\w\<close>: letters, digits and the underscore.\<close>

definition is_word :: "char \<Rightarrow> bool" where
  "is_word c = (is_alnum c \<or> c = CHR ''_'')"

definition lower_char :: "char \<Rightarrow> char" where
  "lower_char c = (if is_upper c then char_of ((of_char c :: nat) + 32) else c)"

definition upper_char :: "char \<Rightarrow> char" where
  "upper_char c = (if is_lower c then char_of ((of_char c :: nat) - 32) else c)"

definition lower_str :: "string \<Rightarrow> string" where
  "lower_str s = map lower_char s"

definition upper_str :: "string \<Rightarrow> string" where
  "upper_str s = map upper_char s"

text \<open>\<^verbatim>\<open>s.strip()\<close>, with its two halves.\<close>

definition lstrip :: "string \<Rightarrow> string" where
  "lstrip s = dropWhile is_space s"

definition rstrip :: "string \<Rightarrow> string" where
  "rstrip s = rev (dropWhile is_space (rev s))"

definition strip :: "string \<Rightarrow> string" where
  "strip s = rstrip (lstrip s)"

text \<open>\<^verbatim>\<open>s.split()\<close>: the maximal runs of non-space characters.\<close>

fun words_acc :: "string \<Rightarrow> string \<Rightarrow> string list" where
  "words_acc cur [] = (if cur = [] then [] else [cur])"
| "words_acc cur (c # cs) =
     (if is_space c then (if cur = [] then words_acc [] cs else cur # words_acc [] cs)
      else words_acc (cur @ [c]) cs)"

definition split_ws :: "string \<Rightarrow> string list" where
  "split_ws s = words_acc [] s"

text \<open>\<^verbatim>\<open>s.split(sep)\<close> for a one-character separator: empty pieces are kept.\<close>

fun split_on :: "char \<Rightarrow> string \<Rightarrow> string list" where
  "split_on sep [] = [[]]"
| "split_on sep (c # cs) =
     (if c = sep then [] # split_on sep cs
      else (case split_on sep cs of [] \<Rightarrow> [[c]] | l # ls \<Rightarrow> (c # l) # ls))"

text \<open>\<^verbatim>\<open>sep.join(xs)\<close>.\<close>

fun join :: "string \<Rightarrow> string list \<Rightarrow> string" where
  "join sep [] = []"
| "join sep [x] = x"
| "join sep (x # y # ys) = x @ sep @ join sep (y # ys)"

definition startswith :: "string \<Rightarrow> string \<Rightarrow> bool" where
  "startswith s p = (take (length p) s = p)"

definition endswith :: "string \<Rightarrow> string \<Rightarrow> bool" where
  "endswith s p = (length p \<le> length s \<and> drop (length s - length p) s = p)"

text \<open>\<^verbatim>\<open>sub in s\<close>: \<open>sub\<close> occurs in \<open>s\<close> as a contiguous piece.\<close>

fun contains :: "string \<Rightarrow> string \<Rightarrow> bool" where
  "contains [] sub = (sub = [])"
| "contains (c # cs) sub = (startswith (c # cs) sub \<or> contains cs sub)"

text \<open>
  \<^verbatim>\<open>re.sub(r"[...]+", " ", s)\<close>: every maximal run of characters of the class is replaced
  by one blank.
\<close>

fun collapse_runs :: "(char \<Rightarrow> bool) \<Rightarrow> bool \<Rightarrow> string \<Rightarrow> string" where
  "collapse_runs P in_run [] = []"
| "collapse_runs P in_run (c # cs) =
     (if P c then (if in_run then collapse_runs P True cs
                   else CHR '' '' # collapse_runs P True cs)
      else c # collapse_runs P False cs)"

definition sub_spaces :: "string \<Rightarrow> string" where
  "sub_spaces s = collapse_runs is_space False s"

section \<open>The fragment of the \<^verbatim>\<open>re\<close> module the parser uses\<close>

text \<open>
  The patterns of the source are built from single characters and character classes,
  greedy repetition of a class, the word boundary \<^verbatim>\<open>\b\<close>, concatenation and
  alternation. A pattern is matched at a cursor: the character that precedes the position (for
  \<^verbatim>\<open>\b\<close>) and the text still to read. \<open>rx_ends\<close> lists the cursors at which a match that
  starts at the given cursor can end, in the order in which the backtracking matcher of
  \<^verbatim>\<open>re\<close> tries them: its head is the match \<^verbatim>\<open>re\<close> reports.
\<close>

datatype rx =
    Eps
  | Cls "char \<Rightarrow> bool"
  | Rep "char \<Rightarrow> bool" nat "nat option"
  | Bnd
  | Seq rx rx
  | Alt rx rx

type_synonym cursor = "char option \<times> string"

definition word_before :: "char option \<Rightarrow> bool" where
  "word_before p = (case p of None \<Rightarrow> False | Some c \<Rightarrow> is_word c)"

definition word_after :: "string \<Rightarrow> bool" where
  "word_after r = (case r of [] \<Rightarrow> False | c # _ \<Rightarrow> is_word c)"

definition at_boundary :: "cursor \<Rightarrow> bool" where
  "at_boundary cur = (word_before (fst cur) \<noteq> word_after (snd cur))"

text \<open>The cursor after reading \<open>k\<close> more characters (\<open>k\<close> at most the length of the rest).\<close>

definition advance :: "nat \<Rightarrow> cursor \<Rightarrow> cursor" where
  "advance k cur =
     (if k = 0 then cur else (Some (snd cur ! (k - 1)), drop k (snd cur)))"

fun rx_ends :: "rx \<Rightarrow> cursor \<Rightarrow> cursor list" where
  "rx_ends Eps cur = [cur]"
| "rx_ends (Cls P) cur =
     (case snd cur of [] \<Rightarrow> [] | c # cs \<Rightarrow> if P c then [(Some c, cs)] else [])"
| "rx_ends (Rep P lo hi) cur =
     (let n = length (takeWhile P (snd cur));
          m = (case hi of None \<Rightarrow> n | Some h \<Rightarrow> min h n)
      in map (\<lambda>k. advance k cur) (rev [lo ..< Suc m]))"
| "rx_ends Bnd cur = (if at_boundary cur then [cur] else [])"
| "rx_ends (Seq a b) cur = concat (map (rx_ends b) (rx_ends a cur))"
| "rx_ends (Alt a b) cur = rx_ends a cur @ rx_ends b cur"

text \<open>\<^verbatim>\<open>re.fullmatch(p, s)\<close> is not \<^verbatim>\<open>None\<close>.\<close>

definition rx_fullmatch :: "rx \<Rightarrow> string \<Rightarrow> bool" where
  "rx_fullmatch p s = list_ex (\<lambda>cur. snd cur = []) (rx_ends p (None, s))"

text \<open>\<^verbatim>\<open>re.search(p, s)\<close> is not \<^verbatim>\<open>None\<close>: the pattern matches at some position.\<close>

fun rx_search_from :: "rx \<Rightarrow> char option \<Rightarrow> string \<Rightarrow> bool" where
  "rx_search_from p prev [] = (rx_ends p (prev, []) \<noteq> [])"
| "rx_search_from p prev (c # cs) =
     (rx_ends p (prev, c # cs) \<noteq> [] \<or> rx_search_from p (Some c) cs)"

definition rx_search :: "rx \<Rightarrow> string \<Rightarrow> bool" where
  "rx_search p s = rx_search_from p None s"

text \<open>
  \<^verbatim>\<open>re.findall(p, s)\<close> for a pattern without groups: the matched pieces, leftmost first, each
  search starting where the previous match ended. Every pattern of the source matches
  at least one character; for an empty match the scan moves on by one character, as
  \<^verbatim>\<open>re\<close> does.
\<close>

function rx_findall_from :: "rx \<Rightarrow> char option \<Rightarrow> string \<Rightarrow> string list" where
  "rx_findall_from p prev r =
     (case rx_ends p (prev, r) of
        [] \<Rightarrow> (case r of [] \<Rightarrow> [] | c # cs \<Rightarrow> rx_findall_from p (Some c) cs)
      | e # _ \<Rightarrow>
          if length (snd e) < length r
          then take (length r - length (snd e)) r # rx_findall_from p (fst e) (snd e)
          else [] # (case r of [] \<Rightarrow> [] | c # cs \<Rightarrow> rx_findall_from p (Some c) cs))"
  by pat_completeness auto
termination
  by (relation "measure (\<lambda>(p, prev, r). length r)") auto

definition rx_findall :: "rx \<Rightarrow> string \<Rightarrow> string list" where
  "rx_findall p s = rx_findall_from p None s"

text \<open>A sequence of patterns, and a literal text (what \<^verbatim>\<open>re.escape\<close> yields).\<close>

fun rx_seq :: "rx list \<Rightarrow> rx" where
  "rx_seq [] = Eps"
| "rx_seq (x # xs) = Seq x (rx_seq xs)"

text \<open>Under \<^verbatim>\<open>re.IGNORECASE\<close> a literal character matches in either case.\<close>

definition lit_ci :: "string \<Rightarrow> rx" where
  "lit_ci s = rx_seq (map (\<lambda>x. Cls (\<lambda>c. lower_char c = lower_char x)) s)"

section \<open>Errors\<close>

text \<open>
  An exception that leaves a function is a value: \<open>Raised\<close> carries the message of an
  exception that a library or a provider raised and the code let through;
  \<open>AttributeError\<close> is a method call on \<^verbatim>\<open>None\<close>; \<open>TypeError\<close> is a \<^verbatim>\<open>str\<close> operation
  applied to \<^verbatim>\<open>bytes\<close>; \<open>JSONDecodeError\<close> is the error of
  \<^verbatim>\<open>json.loads\<close>, with the document it rejected. \<open>MalformedStructuredOutput\<close> and
  \<open>UnreadableDocument\<close> are the error names of the specification: no statement of the
  source constructs them.
\<close>

datatype error =
    Raised string
  | AttributeError
  | TypeError
  | JSONDecodeError string
  | MalformedStructuredOutput string
  | UnreadableDocument

section \<open>The parsed deck\<close>

text \<open>
  \<^verbatim>\<open>PageContent\<close> and \<^verbatim>\<open>ParsedPitchDeck\<close> of \<^verbatim>\<open>pdf_parser.py\<close>. The field \<^verbatim>\<open>text\<close> of a
  page is \<open>page_text\<close> here. A value of the metadata dictionary is a \<^verbatim>\<open>str\<close> or, where
  PyPDF2 could not decode an entry of the document information, a \<^verbatim>\<open>bytes\<close> object.
\<close>

datatype meta_value = Text string | Bytes string

record page_content =
  page_number :: nat
  page_text :: string
  tables :: "string list list list"
  has_images :: bool

record parsed_pitch_deck =
  filename :: string
  total_pages :: nat
  pages :: "page_content list"
  metadata :: "string \<rightharpoonup> meta_value"
  full_text :: string

text \<open>
  \<^verbatim>\<open>(v or "")\<close> and \<^verbatim>\<open>(d.get(k) or "")\<close>: \<^verbatim>\<open>None\<close>, a missing key and an empty value read as
  the empty \<^verbatim>\<open>str\<close>.
\<close>

definition value_or_empty :: "meta_value option \<Rightarrow> meta_value" where
  "value_or_empty v =
     (case v of
        None \<Rightarrow> Text []
      | Some (Text s) \<Rightarrow> Text s
      | Some (Bytes b) \<Rightarrow> if b = [] then Text [] else Bytes b)"

definition get_or_empty :: "(string \<rightharpoonup> meta_value) \<Rightarrow> string \<Rightarrow> meta_value" where
  "get_or_empty d k = value_or_empty (d k)"

text \<open>
  The methods of \<^verbatim>\<open>bytes\<close> that the values meet: \<^verbatim>\<open>strip\<close> and \<^verbatim>\<open>split\<close> know the six
  ASCII white-space characters only.
\<close>

definition is_space_bytes :: "char \<Rightarrow> bool" where
  "is_space_bytes c = (let n = (of_char c :: nat) in (9 \<le> n \<and> n \<le> 13) \<or> n = 32)"

definition strip_bytes :: "string \<Rightarrow> string" where
  "strip_bytes b = rev (dropWhile is_space_bytes (rev (dropWhile is_space_bytes b)))"

fun words_acc_bytes :: "string \<Rightarrow> string \<Rightarrow> string list" where
  "words_acc_bytes cur [] = (if cur = [] then [] else [cur])"
| "words_acc_bytes cur (c # cs) =
     (if is_space_bytes c
      then (if cur = [] then words_acc_bytes [] cs else cur # words_acc_bytes [] cs)
      else words_acc_bytes (cur @ [c]) cs)"

definition split_bytes :: "string \<Rightarrow> string list" where
  "split_bytes b = words_acc_bytes [] b"

text \<open>\<^verbatim>\<open>v.strip()\<close> for a value of either type.\<close>

definition value_strip :: "meta_value \<Rightarrow> meta_value" where
  "value_strip v = (case v of Text s \<Rightarrow> Text (strip s) | Bytes b \<Rightarrow> Bytes (strip_bytes b))"

text \<open>
  The language-model client, as far as the callers see it: \<^verbatim>\<open>complete(prompt,
  system_prompt, max_tokens)\<close> raises (\<open>Inl\<close> of the message of the exception) or returns
  the text of the response (\<open>Inr\<close>; a provider can hand back \<^verbatim>\<open>None\<close>). The sampling
  temperature, a float, is not part of the model.
\<close>

type_synonym llm_client = "string \<Rightarrow> string option \<Rightarrow> nat \<Rightarrow> string + string option"

section \<open>Company-name resolution (\<^verbatim>\<open>pdf_parser.py\<close>)\<close>

definition GENERIC_COVER_PHRASES :: "string list" where
  "GENERIC_COVER_PHRASES =
     [''FOR BUSINESS'', ''INVESTOR DECK'', ''PITCH DECK'', ''PRESENTATION'',
      ''COMPANY OVERVIEW'', ''CONFIDENTIAL'', ''PRIVATE & CONFIDENTIAL'', ''DECK'']"

definition GENERIC_SUBSTRINGS :: "string list" where
  "GENERIC_SUBSTRINGS =
     [''for business'', ''investor'', ''pitch deck'', ''presentation'', ''company overview'',
      ''confidential'', ''private'', ''do not distribute'', ''all rights reserved'']"

definition get_early_pages_text :: "parsed_pitch_deck \<Rightarrow> nat \<Rightarrow> string" where
  "get_early_pages_text parsed_deck max_pages =
     join ''\<newline>'' (filter (\<lambda>t. t \<noteq> []) (map page_text (take max_pages (pages parsed_deck))))"

definition is_generic_phrase :: "string \<Rightarrow> bool" where
  "is_generic_phrase s =
     (if s = [] then True
      else let s_clean = strip (sub_spaces s) in
        if upper_str s_clean \<in> set GENERIC_COVER_PHRASES then True
        else let low = lower_str s_clean in
          list_ex (\<lambda>sub. contains low sub) GENERIC_SUBSTRINGS)"

text \<open>The pattern \<^verbatim>\<open>r"\b" + re.escape(needle) + r"\b"\<close>, matched ignoring case.\<close>

definition count_occurrences :: "string \<Rightarrow> string \<Rightarrow> nat" where
  "count_occurrences haystack needle =
     (if haystack = [] \<or> needle = [] then 0
      else length (rx_findall (rx_seq [Bnd, lit_ci needle, Bnd]) haystack))"

definition is_plausible_company_name :: "string \<Rightarrow> bool" where
  "is_plausible_company_name s0 =
     (let s = strip s0 in
      if s = [] then False
      else if length s < 2 \<or> length s > 60 then False
      else if length (split_ws s) > 6 then False
      else if rx_fullmatch (Rep (\<lambda>c. \<not> is_word c \<or> c = CHR ''_'') 1 None) s then False
      else if rx_fullmatch (Rep is_digit 1 (Some 4)) s then False
      else True)"

definition is_valid_company_candidate :: "string \<Rightarrow> string \<Rightarrow> int \<Rightarrow> bool" where
  "is_valid_company_candidate candidate0 early_text require_occurrences =
     (let candidate = strip candidate0 in
      if \<not> is_plausible_company_name candidate then False
      else if is_generic_phrase candidate then False
      else if require_occurrences > 0
        then int (count_occurrences early_text candidate) \<ge> require_occurrences
      else True)"

text \<open>
  The same two functions when the candidate is a \<^verbatim>\<open>bytes\<close> object: the lengths and the
  number of words are taken as for a \<^verbatim>\<open>str\<close>, and the first pattern of \<^verbatim>\<open>re\<close> that meets
  the value (\<^verbatim>\<open>re.fullmatch\<close> in the first function, \<^verbatim>\<open>re.sub\<close> of
  \<^verbatim>\<open>_is_generic_phrase\<close> in the second) raises \<^verbatim>\<open>TypeError\<close>.
\<close>

definition is_plausible_company_name_bytes :: "string \<Rightarrow> error + bool" where
  "is_plausible_company_name_bytes s0 =
     (let s = strip_bytes s0 in
      if s = [] then Inr False
      else if length s < 2 \<or> length s > 60 then Inr False
      else if length (split_bytes s) > 6 then Inr False
      else Inl TypeError)"

definition is_valid_company_candidate_bytes :: "string \<Rightarrow> error + bool" where
  "is_valid_company_candidate_bytes candidate0 =
     (let candidate = strip_bytes candidate0 in
      case is_plausible_company_name_bytes candidate of
        Inl e \<Rightarrow> Inl e
      | Inr plausible \<Rightarrow> if \<not> plausible then Inr False else Inl TypeError)"

text \<open>The pattern \<^verbatim>\<open>(\d{4}|\w+\s+\d{4}|\w+\s+\d{1,2},\s*\d{4})\<close> of date-like cover lines.\<close>

definition date_rx :: rx where
  "date_rx =
     Alt (Rep is_digit 4 (Some 4))
    (Alt (rx_seq [Rep is_word 1 None, Rep is_space 1 None, Rep is_digit 4 (Some 4)])
         (rx_seq [Rep is_word 1 None, Rep is_space 1 None, Rep is_digit 1 (Some 2),
                  Cls (\<lambda>c. c = CHR '',''), Rep is_space 0 None, Rep is_digit 4 (Some 4)]))"

definition cover_line_ok :: "string \<Rightarrow> bool" where
  "cover_line_ok line =
     (if length line > 80 then False
      else if is_generic_phrase line then False
      else if rx_fullmatch date_rx line then False
      else if length (split_ws line) > 8 then False
      else True)"

definition company_name_from_cover_text :: "string \<Rightarrow> string" where
  "company_name_from_cover_text first_page_text =
     (if first_page_text = [] then []
      else let lines = filter (\<lambda>ln. ln \<noteq> []) (map strip (split_on CHR ''\<newline>'' first_page_text)) in
        if lines = [] then []
        else let candidates = filter cover_line_ok (take 15 lines) in
          (case sort_key (\<lambda>s. (length (split_ws s), length s)) candidates of
             [] \<Rightarrow> []
           | best # _ \<Rightarrow> strip best))"

subsection \<open>The proper-noun frequency heuristic\<close>

text \<open>
  \<^verbatim>\<open>collections.Counter\<close>: the keys in the order of their first occurrence, each with its
  count. \<^verbatim>\<open>most_common(n)\<close> is the first \<open>n\<close> entries of the stable sort by falling count.
\<close>

fun counter_add :: "string \<Rightarrow> (string \<times> nat) list \<Rightarrow> (string \<times> nat) list" where
  "counter_add k [] = [(k, 1)]"
| "counter_add k ((k', n) # rest) =
     (if k = k' then (k', Suc n) # rest else (k', n) # counter_add k rest)"

definition Counter :: "string list \<Rightarrow> (string \<times> nat) list" where
  "Counter tokens = foldl (\<lambda>acc k. counter_add k acc) [] tokens"

definition most_common :: "nat \<Rightarrow> (string \<times> nat) list \<Rightarrow> (string \<times> nat) list" where
  "most_common n counts = take n (sort_key (\<lambda>kc. - int (snd kc)) counts)"

text \<open>The pattern \<^verbatim>\<open>\b[A-Z][a-zA-Z0-9&.\-]{2,}\b\<close>.\<close>

definition token_rx :: rx where
  "token_rx =
     rx_seq [Bnd, Cls is_upper,
             Rep (\<lambda>c. is_alnum c \<or> c = CHR ''&'' \<or> c = CHR ''.'' \<or> c = CHR ''-'') 2 None, Bnd]"

definition blacklist :: "string list" where
  "blacklist =
     [''Snaps'', ''Snap'', ''Stories'', ''Story'',
      ''Confidential'', ''July'', ''America'', ''Age'', ''People'', ''They'', ''Our'',
      ''Business'', ''Investor'', ''Deck'', ''Presentation'', ''Overview'',
      ''Snap'', ''SNAP'', ''FOR'', ''BUSINESS'', ''GET'', ''KNOW'', ''HISTORY'', ''OUR'']"

definition pattern_bonus :: "string \<Rightarrow> string \<Rightarrow> int" where
  "pattern_bonus early_text name =
     (let n = lit_ci name;
          b1 = (if rx_search (rx_seq [Bnd, n, Bnd, Rep is_space 1 None, lit_ci ''was'',
                                      Rep is_space 1 None, lit_ci ''created'', Bnd]) early_text
                then 8 else 0);
          b2 = (if rx_search (rx_seq [Bnd, lit_ci ''At'', Rep is_space 1 None, n, Bnd]) early_text
                then 5 else 0);
          b3 = (if rx_search (rx_seq [Bnd, n, Bnd, Rep is_space 1 None, lit_ci ''is'', Bnd]) early_text
                then 3 else 0)
      in b1 + b2 + b3)"

definition hint_bonus :: "string \<Rightarrow> string \<Rightarrow> string \<Rightarrow> int" where
  "hint_bonus filename_low title_low name =
     (let low = lower_str name in
        (if low \<noteq> [] \<and> contains filename_low low then 10 else 0)
      + (if low \<noteq> [] \<and> contains title_low low then 4 else 0))"

definition plural_penalty :: "string \<Rightarrow> int" where
  "plural_penalty name = (if endswith name ''s'' then 2 else 0)"

definition candidate_score :: "string \<Rightarrow> string \<Rightarrow> string \<Rightarrow> string \<Rightarrow> nat \<Rightarrow> int" where
  "candidate_score early_text filename_low title_low name freq =
     (let score = 0;
          score = score + int freq * 2;
          score = score + pattern_bonus early_text name;
          score = score + hint_bonus filename_low title_low name;
          score = score - plural_penalty name
      in score)"

text \<open>The three \<^verbatim>\<open>continue\<close> tests at the head of the loop body.\<close>

definition skipped :: "string \<Rightarrow> bool" where
  "skipped name =
     (if name \<in> set blacklist then True
      else if \<not> is_plausible_company_name name then True
      else if is_generic_phrase name then True
      else False)"

text \<open>The loop over \<^verbatim>\<open>counts.most_common(30)\<close>, carrying \<^verbatim>\<open>best_name\<close> and \<^verbatim>\<open>best_score\<close>.\<close>

fun best_loop ::
  "string \<Rightarrow> string \<Rightarrow> string \<Rightarrow> (string \<times> nat) list \<Rightarrow> string \<times> int \<Rightarrow> string \<times> int" where
  "best_loop early_text filename_low title_low [] best = best"
| "best_loop early_text filename_low title_low ((name, freq) # rest) best =
     (if skipped name then best_loop early_text filename_low title_low rest best
      else let score = candidate_score early_text filename_low title_low name freq in
        if score > snd best
        then best_loop early_text filename_low title_low rest (name, score)
        else best_loop early_text filename_low title_low rest best)"

definition company_name_from_proper_noun_frequency :: "string \<Rightarrow> string \<Rightarrow> string \<Rightarrow> string" where
  "company_name_from_proper_noun_frequency early_text filename_hint title_hint =
     (if early_text = [] then []
      else let tokens = rx_findall token_rx early_text in
        if tokens = [] then []
        else let counts = Counter tokens;
                 filename_low = lower_str filename_hint;
                 title_low = lower_str title_hint
             in fst (best_loop early_text filename_low title_low (most_common 30 counts)
                       ([], - (10 ^ 9))))"

text \<open>
  The same function when \<^verbatim>\<open>title_hint\<close> is a \<^verbatim>\<open>bytes\<close> object that is not empty:
  \<^verbatim>\<open>title_low\<close> is \<^verbatim>\<open>bytes\<close> then, and \<^verbatim>\<open>low in title_low\<close> in \<^verbatim>\<open>hint_bonus\<close> raises
  \<^verbatim>\<open>TypeError\<close> as soon as the loop scores an entry.
\<close>

definition hint_bonus_bytes_title :: "string \<Rightarrow> string \<Rightarrow> error + int" where
  "hint_bonus_bytes_title filename_low name =
     (let low = lower_str name;
          bonus = (if low \<noteq> [] \<and> contains filename_low low then 10 else 0)
      in if low \<noteq> [] then Inl TypeError else Inr bonus)"

definition candidate_score_bytes_title :: "string \<Rightarrow> string \<Rightarrow> string \<Rightarrow> nat \<Rightarrow> error + int" where
  "candidate_score_bytes_title early_text filename_low name freq =
     (let score = 0;
          score = score + int freq * 2;
          score = score + pattern_bonus early_text name
      in case hint_bonus_bytes_title filename_low name of
           Inl e \<Rightarrow> Inl e
         | Inr h \<Rightarrow> Inr (score + h - plural_penalty name))"

fun best_loop_bytes_title ::
  "string \<Rightarrow> string \<Rightarrow> (string \<times> nat) list \<Rightarrow> string \<times> int \<Rightarrow> error + string \<times> int" where
  "best_loop_bytes_title early_text filename_low [] best = Inr best"
| "best_loop_bytes_title early_text filename_low ((name, freq) # rest) best =
     (if skipped name then best_loop_bytes_title early_text filename_low rest best
      else case candidate_score_bytes_title early_text filename_low name freq of
             Inl e \<Rightarrow> Inl e
           | Inr score \<Rightarrow>
               if score > snd best
               then best_loop_bytes_title early_text filename_low rest (name, score)
               else best_loop_bytes_title early_text filename_low rest best)"

definition company_name_from_proper_noun_frequency_bytes_title ::
  "string \<Rightarrow> string \<Rightarrow> error + string" where
  "company_name_from_proper_noun_frequency_bytes_title early_text filename_hint =
     (if early_text = [] then Inr []
      else let tokens = rx_findall token_rx early_text in
        if tokens = [] then Inr []
        else let counts = Counter tokens;
                 filename_low = lower_str filename_hint
             in case best_loop_bytes_title early_text filename_low (most_common 30 counts)
                       ([], - (10 ^ 9)) of
                  Inl e \<Rightarrow> Inl e
                | Inr best \<Rightarrow> Inr (fst best))"

text \<open>The function at the value that the caller passes as \<^verbatim>\<open>title_hint\<close>.\<close>

definition proper_noun_frequency_at ::
  "string \<Rightarrow> string \<Rightarrow> meta_value \<Rightarrow> error + string" where
  "proper_noun_frequency_at early_text filename_hint title_hint =
     (case value_or_empty (Some title_hint) of
        Text t \<Rightarrow> Inr (company_name_from_proper_noun_frequency early_text filename_hint t)
      | Bytes b \<Rightarrow> company_name_from_proper_noun_frequency_bytes_title early_text filename_hint)"

subsection \<open>The language-model fallback and the cascade\<close>

definition company_prompt :: "string \<Rightarrow> string" where
  "company_prompt first_page_text =
     ''Extract the company name from this pitch deck. Return ONLY the company name, nothing else.''
     @ ''\<newline>\<newline>PITCH DECK TEXT (first page):\<newline>'' @ first_page_text
     @ ''\<newline>\<newline>What is the name of the company this pitch deck is for? ''
     @ ''Return only the company name (1-4 words), no explanations.''"

text \<open>The loop over the lead-in phrases: the first one that matches is cut off.\<close>

fun strip_prefixes :: "string list \<Rightarrow> string \<Rightarrow> string \<Rightarrow> string" where
  "strip_prefixes [] low company_name = company_name"
| "strip_prefixes (prefix # rest) low company_name =
     (if startswith low prefix then strip (drop (length prefix) company_name)
      else strip_prefixes rest low company_name)"

definition extract_company_name_with_llm :: "llm_client \<Rightarrow> parsed_pitch_deck \<Rightarrow> string" where
  "extract_company_name_with_llm llm parsed_deck =
     (let first_page_text =
            (case pages parsed_deck of [] \<Rightarrow> [] | p # _ \<Rightarrow> take 2000 (page_text p));
          prompt = company_prompt first_page_text
      in case llm prompt None 50 of
           Inl e \<Rightarrow> ''Unknown Company''
         | Inr response \<Rightarrow>
             let company_name = strip (case response of None \<Rightarrow> [] | Some r \<Rightarrow> r);
                 company_name =
                   strip (filter (\<lambda>c. c \<noteq> CHR 0x22 \<and> c \<noteq> CHR 0x27) company_name);
                 prefixes = [''the company name is'', ''company:'', ''name:'', ''the company is''];
                 low = lower_str company_name
             in strip_prefixes prefixes low company_name)"

text \<open>
  One stage of the cascade whose candidate is a value of the metadata: a \<^verbatim>\<open>str\<close> that
  passes the gate is returned, a \<^verbatim>\<open>bytes\<close> object is rejected by the gate or makes it
  raise; otherwise the cascade goes on.
\<close>

definition accept_value ::
  "meta_value \<Rightarrow> string \<Rightarrow> int \<Rightarrow> (error + string) \<Rightarrow> error + string" where
  "accept_value candidate early_text require_occurrences otherwise =
     (case candidate of
        Text c \<Rightarrow>
          if is_valid_company_candidate c early_text require_occurrences then Inr c
          else otherwise
      | Bytes b \<Rightarrow>
          (case is_valid_company_candidate_bytes b of
             Inl e \<Rightarrow> Inl e
           | Inr valid \<Rightarrow> otherwise))"

definition extract_company_name :: "llm_client option \<Rightarrow> parsed_pitch_deck \<Rightarrow> error + string" where
  "extract_company_name llm_client parsed_deck =
     (let early_text = get_early_pages_text parsed_deck 5;
          guess = value_strip (get_or_empty (metadata parsed_deck) ''company_name_guess'')
      in accept_value guess early_text 2
        (case (case pages parsed_deck of
                 [] \<Rightarrow> None
               | p # _ \<Rightarrow>
                   let cover_candidate = company_name_from_cover_text (page_text p)
                   in if is_valid_company_candidate cover_candidate early_text 2
                      then Some cover_candidate else None) of
           Some cover_candidate \<Rightarrow> Inr cover_candidate
         | None \<Rightarrow>
            (case proper_noun_frequency_at early_text (filename parsed_deck)
                    (get_or_empty (metadata parsed_deck) ''title'') of
               Inl e \<Rightarrow> Inl e
             | Inr freq_candidate \<Rightarrow>
                 if is_valid_company_candidate freq_candidate early_text 1
                 then Inr freq_candidate
                 else let title = value_strip (get_or_empty (metadata parsed_deck) ''title'')
                   in accept_value title early_text 0
                        (case llm_client of
                           None \<Rightarrow> Inr ''Unknown Company''
                         | Some llm \<Rightarrow>
                             let company_name = extract_company_name_with_llm llm parsed_deck
                             in if is_valid_company_candidate company_name early_text 0
                                then Inr company_name
                                else Inr ''Unknown Company''))))"

section \<open>Structured completion (\<^verbatim>\<open>llm_client.py\<close>)\<close>

text \<open>\<^verbatim>\<open>s.find(c)\<close> and \<^verbatim>\<open>s.rfind(c)\<close> for one character: an index, or \<open>-1\<close>.\<close>

definition find_char :: "char \<Rightarrow> string \<Rightarrow> int" where
  "find_char c s = (if c \<in> set s then int (length (takeWhile (\<lambda>x. x \<noteq> c) s)) else - 1)"

definition rfind_char :: "char \<Rightarrow> string \<Rightarrow> int" where
  "rfind_char c s =
     (if c \<in> set s then int (length s) - 1 - int (length (takeWhile (\<lambda>x. x \<noteq> c) (rev s)))
      else - 1)"

text \<open>\<^verbatim>\<open>s[start:stop]\<close> for indices that are not negative.\<close>

definition slice :: "int \<Rightarrow> int \<Rightarrow> string \<Rightarrow> string" where
  "slice start stop s = drop (nat start) (take (nat stop) s)"

definition json_prompt :: "string \<Rightarrow> string" where
  "json_prompt prompt =
     prompt @ ''\<newline>\<newline>IMPORTANT: Return ONLY valid JSON, no other text or markdown formatting.''"

text \<open>
  The two cleaning steps of \<^verbatim>\<open>complete_with_json\<close> between the completion and
  \<^verbatim>\<open>json.loads\<close>: the code fence, then the braces. (\<open>stop\<close> is \<^verbatim>\<open>end\<close> in the source.)
\<close>

definition strip_fence :: "string \<Rightarrow> string" where
  "strip_fence response =
     (if startswith response ''```''
      then let lines = split_on CHR ''\<newline>'' response
           in join ''\<newline>'' (if startswith (last lines) ''```'' then butlast (tl lines)
                                   else tl lines)
      else response)"

definition find_json :: "string \<Rightarrow> string" where
  "find_json response =
     (let start = find_char CHR ''{'' response;
          stop = rfind_char CHR ''}'' response + 1
      in if start \<noteq> - 1 \<and> stop > start then slice start stop response else response)"

text \<open>
  \<^verbatim>\<open>json.loads\<close> belongs to the standard library: it is a parameter \<open>loads\<close>, which yields
  the parsed value, or \<open>None\<close> where \<^verbatim>\<open>json.loads\<close> raises its \<^verbatim>\<open>JSONDecodeError\<close>.
\<close>

definition complete_with_json ::
  "(string \<Rightarrow> 'j option) \<Rightarrow> llm_client \<Rightarrow> string \<Rightarrow> string option \<Rightarrow> error + 'j" where
  "complete_with_json loads llm prompt system_prompt =
     (case llm (json_prompt prompt) system_prompt 2000 of
        Inl e \<Rightarrow> Inl (Raised e)
      | Inr None \<Rightarrow> Inl AttributeError
      | Inr (Some response0) \<Rightarrow>
          let response = strip response0;
              response = strip_fence response;
              response = find_json response
          in (case loads response of
                None \<Rightarrow> Inl (JSONDecodeError response)
              | Some v \<Rightarrow> Inr v))"

section \<open>Web search (\<^verbatim>\<open>web_search.py\<close>)\<close>

text \<open>
  Time is counted in milliseconds on a clock that \<^verbatim>\<open>time.sleep\<close> and the provider calls
  advance: \<^verbatim>\<open>time.time()\<close> reads \<open>now\<close>, the delay of 2.5 seconds is 2500. The providers
  are a script: the call number \<open>k\<close> of the process, with its query, takes \<open>took\<close>
  milliseconds and raises (\<open>Inl\<close> of the message) or returns its results. What the
  process does is recorded in a trace, oldest first. The normalisation of the results
  into dictionaries and the console output are not part of the model.
\<close>

datatype event =
    Slept nat
  | TavilySearch nat
  | DdgText nat
  | DdgClientCreated

record 'r outcome =
  took :: nat
  answer :: "string + 'r list"

record 'r env =
  tavily_api_key :: "string option"
  tavily_init_error :: "string option"
  ddg_import_error :: "string option"
  provider :: "nat \<Rightarrow> string \<Rightarrow> 'r outcome"

text \<open>
  The state of the process (the clock, the class attribute
  \<^verbatim>\<open>WebSearchClient._last_ddg_search_time\<close>, the number of provider calls made, the trace)
  and the state of one \<^verbatim>\<open>WebSearchClient\<close> (its attributes).
\<close>

record world =
  now :: nat
  last_ddg_search_time :: nat
  calls :: nat
  trace :: "event list"

record client =
  max_results :: nat
  use_tavily :: bool
  tavily_client :: bool
  ddg :: bool

definition min_ddg_delay :: nat where
  "min_ddg_delay = 2500"

definition sleep :: "nat \<Rightarrow> world \<Rightarrow> world" where
  "sleep d w = w\<lparr>now := now w + d, trace := trace w @ [Slept d]\<rparr>"

text \<open>The truth value of \<^verbatim>\<open>config.tavily_api_key\<close>.\<close>

definition key_set :: "'r env \<Rightarrow> bool" where
  "key_set e = (case tavily_api_key e of None \<Rightarrow> False | Some k \<Rightarrow> k \<noteq> [])"

text \<open>\<^verbatim>\<open>WebSearchClient.__init__\<close>.\<close>

definition init_client :: "'r env \<Rightarrow> nat \<Rightarrow> client" where
  "init_client e n =
     (let c = \<lparr>max_results = n, use_tavily = False, tavily_client = False, ddg = False\<rparr>
      in if key_set e
         then (case tavily_init_error e of
                 None \<Rightarrow> c\<lparr>tavily_client := True, use_tavily := True\<rparr>
               | Some msg \<Rightarrow> c)
         else c)"

definition get_tavily_client :: "'r env \<Rightarrow> client \<Rightarrow> string + client" where
  "get_tavily_client e c =
     (if \<not> tavily_client c \<and> key_set e
      then (case tavily_init_error e of
              None \<Rightarrow> Inr (c\<lparr>tavily_client := True\<rparr>)
            | Some msg \<Rightarrow> Inl (''Tavily initialization failed: '' @ msg))
      else Inr c)"

definition get_ddg_client :: "'r env \<Rightarrow> client \<times> world \<Rightarrow> string + client \<times> world" where
  "get_ddg_client e cw =
     (if \<not> ddg (fst cw)
      then (case ddg_import_error e of
              None \<Rightarrow> Inr ((fst cw)\<lparr>ddg := True\<rparr>,
                         (snd cw)\<lparr>trace := trace (snd cw) @ [DdgClientCreated]\<rparr>)
            | Some msg \<Rightarrow> Inl msg)
      else Inr cw)"

text \<open>One call of a provider: it is issued at the present time and takes its time.\<close>

definition call_provider ::
  "'r env \<Rightarrow> (nat \<Rightarrow> event) \<Rightarrow> string \<Rightarrow> world \<Rightarrow> (string + 'r list) \<times> world" where
  "call_provider e ev query w =
     (let out = provider e (calls w) query
      in (answer out,
          w\<lparr>now := now w + took out, calls := Suc (calls w), trace := trace w @ [ev (now w)]\<rparr>))"

text \<open>
  \<^verbatim>\<open>_search_tavily\<close>: the result or the exception that leaves it, with the states. A client
  that is \<^verbatim>\<open>None\<close> fails at the attribute access, inside the \<^verbatim>\<open>try\<close>.
\<close>

definition search_tavily ::
  "'r env \<Rightarrow> string \<Rightarrow> client \<times> world \<Rightarrow> (string + 'r list) \<times> client \<times> world" where
  "search_tavily e query cw =
     (case get_tavily_client e (fst cw) of
        Inl msg \<Rightarrow> (Inl msg, cw)
      | Inr c \<Rightarrow>
          let (ans, w) =
                (if tavily_client c then call_provider e TavilySearch query (snd cw)
                 else (Inl ''NoneType object has no attribute search'', snd cw))
          in (case ans of
                Inr results \<Rightarrow> (Inr results, c, w)
              | Inl msg \<Rightarrow>
                  let error_str = lower_str msg
                  in if contains error_str ''quota'' \<or> contains error_str ''limit''
                     then (Inl msg, c\<lparr>use_tavily := False\<rparr>, w)
                     else (Inl msg, c, w)))"

definition is_rate_limit :: "string \<Rightarrow> bool" where
  "is_rate_limit error_str =
     (contains error_str ''ratelimit'' \<or> contains error_str ''rate limit'' \<or> contains error_str ''429'')"

definition is_connection_issue :: "string \<Rightarrow> bool" where
  "is_connection_issue error_str =
     (contains error_str ''timeout'' \<or> contains error_str ''connection'')"

text \<open>The body of the \<^verbatim>\<open>try\<close> of one attempt, up to the provider's answer.\<close>

definition ddg_try :: "'r env \<Rightarrow> string \<Rightarrow> int \<Rightarrow> client \<times> world \<Rightarrow> (string + 'r list) \<times> client \<times> world" where
  "ddg_try e query attempt cw =
     (let w = snd cw;
          current_time = now w;
          time_since_last = int current_time - int (last_ddg_search_time w);
          w = (if time_since_last < int min_ddg_delay
               then sleep (nat (int min_ddg_delay - time_since_last)) w else w);
          w = (if attempt > 0 then sleep 3000 w else w)
      in case get_ddg_client e (fst cw, w) of
           Inl msg \<Rightarrow> (Inl msg, fst cw, w)
         | Inr cw' \<Rightarrow>
             let (ans, w') = call_provider e DdgText query (snd cw')
             in (ans, fst cw', w'))"

text \<open>
  \<^verbatim>\<open>_search_duckduckgo\<close>, from the attempt \<open>attempt\<close> of its loop
  \<^verbatim>\<open>for attempt in range(retry_count + 1)\<close> on.
\<close>

function search_duckduckgo_from ::
  "'r env \<Rightarrow> string \<Rightarrow> int \<Rightarrow> int \<Rightarrow> client \<times> world \<Rightarrow> 'r list \<times> client \<times> world" where
  "search_duckduckgo_from e query retry_count attempt cw =
     (if attempt < 0 \<or> attempt > retry_count then ([], cw)
      else case ddg_try e query attempt cw of
        (Inr results, c, w) \<Rightarrow>
          let w = w\<lparr>last_ddg_search_time := now w\<rparr>;
              w = sleep 500 w
          in (results, c, w)
      | (Inl msg, c, w) \<Rightarrow>
          let error_str = lower_str msg
          in if is_rate_limit error_str \<and> attempt < retry_count
             then let wait_time = (attempt + 1) * 5;
                      w = sleep (nat (wait_time * 1000)) w;
                      c = c\<lparr>ddg := False\<rparr>
                  in search_duckduckgo_from e query retry_count (attempt + 1) (c, w)
             else if is_connection_issue error_str
             then let wait_time = (attempt + 1) * 3;
                      w = sleep (nat (wait_time * 1000)) w;
                      c = c\<lparr>ddg := False\<rparr>
                  in search_duckduckgo_from e query retry_count (attempt + 1) (c, w)
             else ([], c, w))"
  by pat_completeness auto
termination
  by (relation "measure (\<lambda>(e, query, retry_count, attempt, cw). nat (retry_count + 1 - attempt))") auto

declare search_duckduckgo_from.simps [simp del]

definition search_duckduckgo ::
  "'r env \<Rightarrow> string \<Rightarrow> int \<Rightarrow> client \<times> world \<Rightarrow> 'r list \<times> client \<times> world" where
  "search_duckduckgo e query retry_count cw = search_duckduckgo_from e query retry_count 0 cw"

text \<open>\<^verbatim>\<open>search\<close>.\<close>

definition search ::
  "'r env \<Rightarrow> string \<Rightarrow> int \<Rightarrow> client \<times> world \<Rightarrow> 'r list \<times> client \<times> world" where
  "search e query retry_count cw =
     (if use_tavily (fst cw) \<and> key_set e
      then (case search_tavily e query cw of
              (Inr results, cw') \<Rightarrow> (results, cw')
            | (Inl msg, c, w) \<Rightarrow>
                search_duckduckgo e query retry_count (c\<lparr>use_tavily := False\<rparr>, w))
      else search_duckduckgo e query retry_count cw)"

text \<open>A session: the searches of one client, one after the other.\<close>

fun run_searches :: "'r env \<Rightarrow> (string \<times> int) list \<Rightarrow> client \<times> world \<Rightarrow> client \<times> world" where
  "run_searches e [] cw = cw"
| "run_searches e ((query, retry_count) # rest) cw =
     run_searches e rest (snd (search e query retry_count cw))"

section \<open>Ingestion (\<^verbatim>\<open>PitchDeckParser.parse\<close>)\<close>

text \<open>
  What the two PDF libraries yield for a path. \<open>reader\<close> is the outcome of the \<^verbatim>\<open>try\<close> block
  around \<^verbatim>\<open>PdfReader\<close>: an exception, no metadata, or the four entries read from it.
  An entry that PyPDF2 decoded is a \<^verbatim>\<open>str\<close>, one that it could not decode is a
  \<^verbatim>\<open>bytes\<close> object, and a value without the method \<^verbatim>\<open>strip\<close> makes the block raise;
  \<open>info_creation_date\<close> is the text that \<^verbatim>\<open>str\<close> makes of the entry.
  \<open>plumber\<close> is the outcome of \<^verbatim>\<open>pdfplumber.open\<close>: an exception, or the pages. A page
  gives its text (or raises), its tables (or raises), whether it has images, and the
  value of \<^verbatim>\<open>_company_name_from_largest_text\<close>, which is computed from the font sizes
  (floats) of the words and is taken as given.
\<close>

record pdf_info =
  info_title :: "meta_value option"
  info_author :: "meta_value option"
  info_creator :: "meta_value option"
  info_creation_date :: "string option"

record raw_page =
  extract_text :: "string + string option"
  extract_tables :: "string + string option list list list"
  images :: bool
  largest_text :: "string option"

record pdf_file =
  reader :: "string + pdf_info option"
  plumber :: "string + raw_page list"

text \<open>\<^verbatim>\<open>_clean_text\<close>.\<close>

fun replace_crlf :: "string \<Rightarrow> string" where
  "replace_crlf (c # d # r) =
     (if c = CHR 0x0D \<and> d = CHR 0x0A then CHR 0x0A # replace_crlf r
      else c # replace_crlf (d # r))"
| "replace_crlf s = s"

definition is_control :: "char \<Rightarrow> bool" where
  "is_control c =
     (let n = (of_char c :: nat)
      in n \<le> 8 \<or> n = 11 \<or> n = 12 \<or> (14 \<le> n \<and> n \<le> 31) \<or> (127 \<le> n \<and> n \<le> 159))"

definition is_blank :: "char \<Rightarrow> bool" where
  "is_blank c = (c = CHR '' '' \<or> c = CHR 0x09 \<or> c = CHR 0x0C \<or> c = CHR 0x0B)"

definition clean_text :: "string \<Rightarrow> string" where
  "clean_text text0 =
     (let text1 = map (\<lambda>c. if c = CHR 0x0D then CHR 0x0A else c) (replace_crlf text0);
          text2 = filter (\<lambda>c. \<not> is_control c) text1;
          cleaned_lines =
            filter (\<lambda>line. line \<noteq> [])
              (map (\<lambda>line. strip (collapse_runs is_blank False line))
                 (split_on CHR 0x0A text2))
      in strip (join ''\<newline>'' cleaned_lines))"

definition or_empty :: "string option \<Rightarrow> string" where
  "or_empty v = (case v of None \<Rightarrow> [] | Some s \<Rightarrow> s)"

text \<open>The metadata block: a failure leaves the dictionary with the one key \<^verbatim>\<open>error\<close>.\<close>

definition read_metadata :: "string + pdf_info option \<Rightarrow> (string \<rightharpoonup> meta_value)" where
  "read_metadata r =
     (case r of
        Inl e \<Rightarrow> [''error'' \<mapsto> Text e]
      | Inr None \<Rightarrow> Map.empty
      | Inr (Some info) \<Rightarrow>
          [''title'' \<mapsto> value_strip (value_or_empty (info_title info)),
           ''author'' \<mapsto> value_strip (value_or_empty (info_author info)),
           ''creator'' \<mapsto> value_strip (value_or_empty (info_creator info)),
           ''creation_date'' \<mapsto> Text (or_empty (info_creation_date info))])"

definition clean_tables :: "string + string option list list list \<Rightarrow> string list list list" where
  "clean_tables t =
     (case t of
        Inl e \<Rightarrow> []
      | Inr raw_tables \<Rightarrow>
          map (\<lambda>table. map (\<lambda>row. map or_empty row) (filter (\<lambda>row. row \<noteq> []) table))
              raw_tables)"

text \<open>The loop over \<^verbatim>\<open>enumerate(pdf.pages)\<close>, from the index \<open>i\<close> on.\<close>

fun parse_pages ::
  "nat \<Rightarrow> raw_page list \<Rightarrow> page_content list \<Rightarrow> (string \<rightharpoonup> meta_value)
   \<Rightarrow> error + page_content list \<times> (string \<rightharpoonup> meta_value)" where
  "parse_pages i [] acc md = Inr (acc, md)"
| "parse_pages i (page # rest) acc md =
     (case extract_text page of
        Inl e \<Rightarrow> Inl (Raised e)
      | Inr t \<Rightarrow>
          let raw_text = or_empty t;
              content = \<lparr>page_number = i + 1, page_text = clean_text raw_text,
                         tables = clean_tables (extract_tables page),
                         has_images = images page\<rparr>;
              md = (if i = 0
                    then (case largest_text page of
                            None \<Rightarrow> md
                          | Some guess \<Rightarrow>
                              if guess \<noteq> [] then md(''company_name_guess'' \<mapsto> Text guess) else md)
                    else md)
          in parse_pages (i + 1) rest (acc @ [content]) md)"

definition parse :: "(string \<Rightarrow> pdf_file) \<Rightarrow> string \<Rightarrow> error + parsed_pitch_deck" where
  "parse fs pdf_path =
     (let md = read_metadata (reader (fs pdf_path))
      in case plumber (fs pdf_path) of
           Inl e \<Rightarrow> Inl (Raised e)
         | Inr raw_pages \<Rightarrow>
             (case parse_pages 0 raw_pages [] md of
                Inl err \<Rightarrow> Inl err
              | Inr (ps, md') \<Rightarrow>
                  Inr \<lparr>filename = last (split_on CHR ''/'' pdf_path),
                       total_pages = length ps,
                       pages = ps,
                       metadata = md',
                       full_text = join ''\<newline>\<newline>'' (map page_text ps)\<rparr>))"

section \<open>Notions of the statements\<close>

subsection \<open>Company-name resolution\<close>

text \<open>
  The candidates of the cascade in the order of its stages, for a deck whose entries are
  text, each with the number of occurrences the gate asks of it: the largest-text guess, the cover line (when the deck
  has a page), the most frequent proper noun, the title, and the answer of the language
  model (when there is a client).
\<close>

definition is_text :: "meta_value \<Rightarrow> bool" where
  "is_text v = (case v of Text s \<Rightarrow> True | Bytes b \<Rightarrow> False)"

definition text_of :: "meta_value \<Rightarrow> string" where
  "text_of v = (case v of Text s \<Rightarrow> s | Bytes b \<Rightarrow> b)"

text \<open>
  The two entries of the metadata that the cascade reads are \<^verbatim>\<open>str\<close> values, absent, or
  empty.
\<close>

definition text_entries :: "parsed_pitch_deck \<Rightarrow> bool" where
  "text_entries parsed_deck =
     (is_text (get_or_empty (metadata parsed_deck) ''company_name_guess'') \<and>
      is_text (get_or_empty (metadata parsed_deck) ''title''))"

definition stage_candidates :: "llm_client option \<Rightarrow> parsed_pitch_deck \<Rightarrow> (string \<times> int) list" where
  "stage_candidates llm_client parsed_deck =
     (let early_text = get_early_pages_text parsed_deck 5 in
        [(strip (text_of (get_or_empty (metadata parsed_deck) ''company_name_guess'')), 2)]
      @ (case pages parsed_deck of [] \<Rightarrow> []
         | p # _ \<Rightarrow> [(company_name_from_cover_text (page_text p), 2)])
      @ [(company_name_from_proper_noun_frequency early_text (filename parsed_deck)
            (text_of (get_or_empty (metadata parsed_deck) ''title'')), 1),
         (strip (text_of (get_or_empty (metadata parsed_deck) ''title'')), 0)]
      @ (case llm_client of None \<Rightarrow> []
         | Some llm \<Rightarrow> [(extract_company_name_with_llm llm parsed_deck, 0)]))"

definition passes_gate :: "parsed_pitch_deck \<Rightarrow> string \<times> int \<Rightarrow> bool" where
  "passes_gate parsed_deck cn =
     is_valid_company_candidate (fst cn) (get_early_pages_text parsed_deck 5) (snd cn)"

text \<open>What \<open>is_generic_phrase\<close> compares with the two block lists.\<close>

definition tidy :: "string \<Rightarrow> string" where
  "tidy s = strip (sub_spaces (strip s))"

text \<open>A piece of text that begins and ends with a visible character.\<close>

definition solid :: "string \<Rightarrow> bool" where
  "solid sub = (sub \<noteq> [] \<and> \<not> is_space (hd sub) \<and> \<not> is_space (last sub))"

text \<open>
  The entries of \<^verbatim>\<open>most_common(30)\<close> that the loop does not skip, each with the score the
  loop gives it, and the invariant of \<open>Counter\<close>: the keys are distinct and each carries
  the number of its occurrences.
\<close>

definition scored ::
  "string \<Rightarrow> string \<Rightarrow> string \<Rightarrow> (string \<times> nat) list \<Rightarrow> (string \<times> int) list" where
  "scored early_text filename_low title_low entries =
     map (\<lambda>e. (fst e, candidate_score early_text filename_low title_low (fst e) (snd e)))
         (filter (\<lambda>e. \<not> skipped (fst e)) entries)"

definition counts_of :: "string list \<Rightarrow> (string \<times> nat) list \<Rightarrow> bool" where
  "counts_of seen m =
     (distinct (map fst m) \<and>
      (\<forall>k. map_of m k = (if k \<in> set seen then Some (count_list seen k) else None)))"

subsection \<open>Example inputs\<close>


text \<open>Thirty proper nouns, then one more that the file name and the text single out.\<close>

definition crowded_text :: string where
  "crowded_text =
     ''Aaa Bbb Ccc Ddd Eee Fff Ggg Hhh Iii Jjj Kkk Lll Mmm Nnn Ooo Ppp Qqq Rrr Sss Ttt ''
     @ ''Uuu Vvv Www Xxx Yyy Zzz Aab Aac Aad Aae Zeta was created''"

text \<open>
  A deck without pages or metadata, a deck whose title is the text of the sentinel, a deck
  whose title PyPDF2 left as \<^verbatim>\<open>bytes\<close>, and a client that always fails.
\<close>

definition empty_deck :: parsed_pitch_deck where
  "empty_deck = \<lparr>filename = ''deck.pdf'', total_pages = 0, pages = [],
     metadata = Map.empty, full_text = []\<rparr>"

definition titled_deck :: parsed_pitch_deck where
  "titled_deck = \<lparr>filename = ''deck.pdf'', total_pages = 0, pages = [],
     metadata = [''title'' \<mapsto> Text ''Unknown Company''], full_text = []\<rparr>"

definition bytes_titled_deck :: parsed_pitch_deck where
  "bytes_titled_deck = \<lparr>filename = ''deck.pdf'', total_pages = 0, pages = [],
     metadata = [''title'' \<mapsto> Bytes ''Acme Robotics''], full_text = []\<rparr>"

definition failing_llm :: llm_client where
  "failing_llm prompt system_prompt max_tokens = Inl ''connection reset''"

text \<open>
  A deck whose metadata is the error marker, whose cover shouts a generic phrase and
  whose largest text is that phrase.
\<close>

definition shouting_deck :: parsed_pitch_deck where
  "shouting_deck = \<lparr>filename = ''deck.pdf'', total_pages = 1,
     pages = [\<lparr>page_number = 1,
               page_text = ''INVESTOR DECK\<newline>INVESTOR DECK\<newline>INVESTOR DECK\<newline>Acme Acme'',
               tables = [], has_images = False\<rparr>],
     metadata = [''error'' \<mapsto> Text ''EOF marker not found'',
                 ''company_name_guess'' \<mapsto> Text ''INVESTOR DECK''],
     full_text = ''INVESTOR DECK\<newline>INVESTOR DECK\<newline>INVESTOR DECK\<newline>Acme Acme''\<rparr>"

text \<open>
  A client that answers every prompt with the same text, and a stand-in for
  \<^verbatim>\<open>json.loads\<close> on the documents of the examples: it knows the object \<^verbatim>\<open>{"a":1}\<close> and
  rejects the other texts of the examples, none of which is JSON.
\<close>

definition replying_llm :: "string \<Rightarrow> llm_client" where
  "replying_llm r prompt system_prompt max_tokens = Inr (Some r)"

definition stub_loads :: "string \<Rightarrow> (string \<times> int) list option" where
  "stub_loads doc = (if doc = ''{\"a\":1}'' then Some [(''a'', 1)] else None)"

subsection \<open>Web search\<close>

text \<open>
  The times at which the fallback provider was called, and the calls of the primary
  provider, as a trace records them.
\<close>

fun ddg_times :: "event list \<Rightarrow> nat list" where
  "ddg_times [] = []"
| "ddg_times (DdgText t # evs) = t # ddg_times evs"
| "ddg_times (ev # evs) = ddg_times evs"

fun tavily_times :: "event list \<Rightarrow> nat list" where
  "tavily_times [] = []"
| "tavily_times (TavilySearch t # evs) = t # tavily_times evs"
| "tavily_times (ev # evs) = tavily_times evs"

text \<open>A session that goes to the fallback provider only.\<close>

fun run_fallback_searches ::
  "'r env \<Rightarrow> (string \<times> int) list \<Rightarrow> client \<times> world \<Rightarrow> client \<times> world" where
  "run_fallback_searches e [] cw = cw"
| "run_fallback_searches e ((query, retry_count) # rest) cw =
     run_fallback_searches e rest (snd (search_duckduckgo e query retry_count cw))"

text \<open>
  Example processes. The clock starts at ten seconds, with no fallback search made yet.
  In \<open>flaky_env\<close> the primary provider is configured and its first call fails, every later
  call succeeds. In \<open>hasty_env\<close> and \<open>stormy_env\<close> no primary provider is configured;
  the first call of \<open>hasty_env\<close> fails with an error that is not transient, the calls of
  \<open>stormy_env\<close> fail with a rate limit, then a connection error, then another error.
\<close>

definition start_world :: world where
  "start_world = \<lparr>now = 10000, last_ddg_search_time = 0, calls = 0, trace = []\<rparr>"

definition flaky_env :: "string env" where
  "flaky_env = \<lparr>tavily_api_key = Some ''tvly-key'', tavily_init_error = None,
     ddg_import_error = None,
     provider = (\<lambda>k query. if k = 0 then \<lparr>took = 200, answer = Inl ''HTTP 500 server error''\<rparr>
                              else \<lparr>took = 300, answer = Inr [query]\<rparr>)\<rparr>"

definition hasty_env :: "string env" where
  "hasty_env = \<lparr>tavily_api_key = None, tavily_init_error = None, ddg_import_error = None,
     provider = (\<lambda>k query. if k = 0 then \<lparr>took = 100, answer = Inl ''unexpected response''\<rparr>
                              else \<lparr>took = 100, answer = Inr [query]\<rparr>)\<rparr>"


subsection \<open>Ingestion\<close>

text \<open>
  A page that yields its text, and the text that ingestion keeps of it. Example files: one
  that neither library can open, one whose title PyPDF2 hands back as \<^verbatim>\<open>bytes\<close>, and one
  whose metadata PyPDF2 cannot read while pdfplumber reads its two pages (the second
  without text, its tables failing).
\<close>

definition yields_text :: "raw_page \<Rightarrow> bool" where
  "yields_text page = (case extract_text page of Inl e \<Rightarrow> False | Inr t \<Rightarrow> True)"

definition kept_text :: "raw_page \<Rightarrow> string" where
  "kept_text page = (case extract_text page of Inl e \<Rightarrow> [] | Inr t \<Rightarrow> clean_text (or_empty t))"

definition cover_page :: raw_page where
  "cover_page = \<lparr>extract_text = Inr (Some ''Acme  Robotics \<newline>\<newline>Seed round''),
     extract_tables = Inr [], images = False, largest_text = Some ''Acme Robotics''\<rparr>"

definition team_page :: raw_page where
  "team_page = \<lparr>extract_text = Inr None, extract_tables = Inl ''bad table'',
     images = True, largest_text = None\<rparr>"

definition missing_fs :: "string \<Rightarrow> pdf_file" where
  "missing_fs path = \<lparr>reader = Inl ''No such file or directory'',
     plumber = Inl ''No such file or directory''\<rparr>"

definition bytes_title_fs :: "string \<Rightarrow> pdf_file" where
  "bytes_title_fs path =
     \<lparr>reader = Inr (Some \<lparr>info_title = Some (Bytes '' Acme Robotics ''), info_author = None,
                           info_creator = Some (Text ''Keynote''),
                           info_creation_date = None\<rparr>),
      plumber = Inr []\<rparr>"

definition damaged_fs :: "string \<Rightarrow> pdf_file" where
  "damaged_fs path = \<lparr>reader = Inl ''EOF marker not found'',
     plumber = Inr [cover_page, team_page]\<rparr>"

section \<open>Character classes, bit by bit\<close>

text \<open>
  The classes and the case conversions in terms of the eight bits of a character, as
  code equations: they make the evaluation of the examples fast.
\<close>


lemma is_digit_bits [code]:
  "is_digit (Char b0 b1 b2 b3 b4 b5 b6 b7) =
     (\<not> b7 \<and> \<not> b6 \<and> b5 \<and> b4 \<and> (\<not> b3 \<or> (\<not> b2 \<and> \<not> b1)))"
  by (cases b0; cases b1; cases b2; cases b3; cases b4; cases b5; cases b6; cases b7;
      simp add: is_digit_def)

lemma is_upper_bits [code]:
  "is_upper (Char b0 b1 b2 b3 b4 b5 b6 b7) =
     (\<not> b7 \<and> b6 \<and> \<not> b5 \<and> (b0 \<or> b1 \<or> b2 \<or> b3 \<or> b4)
      \<and> \<not> (b4 \<and> b3 \<and> (b2 \<or> (b1 \<and> b0))))"
  by (cases b0; cases b1; cases b2; cases b3; cases b4; cases b5; cases b6; cases b7;
      simp add: is_upper_def)

lemma is_lower_bits [code]:
  "is_lower (Char b0 b1 b2 b3 b4 b5 b6 b7) =
     (\<not> b7 \<and> b6 \<and> b5 \<and> (b0 \<or> b1 \<or> b2 \<or> b3 \<or> b4)
      \<and> \<not> (b4 \<and> b3 \<and> (b2 \<or> (b1 \<and> b0))))"
  by (cases b0; cases b1; cases b2; cases b3; cases b4; cases b5; cases b6; cases b7;
      simp add: is_lower_def)

lemma is_space_bits [code]:
  "is_space (Char b0 b1 b2 b3 b4 b5 b6 b7) =
     (\<not> b7 \<and> \<not> b6 \<and>
      ((\<not> b5 \<and> \<not> b4 \<and> b3 \<and> ((\<not> b2 \<and> (b1 \<or> b0)) \<or> (b2 \<and> \<not> b1)))
       \<or> (\<not> b5 \<and> b4 \<and> b3 \<and> b2)
       \<or> (b5 \<and> \<not> b4 \<and> \<not> b3 \<and> \<not> b2 \<and> \<not> b1 \<and> \<not> b0)))"
  by (cases b0; cases b1; cases b2; cases b3; cases b4; cases b5; cases b6; cases b7;
      simp add: is_space_def)

lemma lower_char_bits [code]:
  "lower_char (Char b0 b1 b2 b3 b4 b5 b6 b7) =
     (if is_upper (Char b0 b1 b2 b3 b4 b5 b6 b7) then Char b0 b1 b2 b3 b4 True b6 b7
      else Char b0 b1 b2 b3 b4 b5 b6 b7)"
proof (cases "is_upper (Char b0 b1 b2 b3 b4 b5 b6 b7)")
  case False
  then show ?thesis by (simp add: lower_char_def)
next
  case True
  then have b: "\<not> b7" "b6" "\<not> b5" by (simp_all add: is_upper_bits)
  have "\<forall>b0 b1 b2 b3 b4. char_of (of_char (Char b0 b1 b2 b3 b4 False True False) + (32::nat))
        = Char b0 b1 b2 b3 b4 True True False"
    by code_simp
  with True b show ?thesis by (simp add: lower_char_def)
qed

lemma upper_char_bits [code]:
  "upper_char (Char b0 b1 b2 b3 b4 b5 b6 b7) =
     (if is_lower (Char b0 b1 b2 b3 b4 b5 b6 b7) then Char b0 b1 b2 b3 b4 False b6 b7
      else Char b0 b1 b2 b3 b4 b5 b6 b7)"
proof (cases "is_lower (Char b0 b1 b2 b3 b4 b5 b6 b7)")
  case False
  then show ?thesis by (simp add: upper_char_def)
next
  case True
  then have b: "\<not> b7" "b6" "b5" by (simp_all add: is_lower_bits)
  have "\<forall>b0 b1 b2 b3 b4. char_of (of_char (Char b0 b1 b2 b3 b4 True True False) - (32::nat))
        = Char b0 b1 b2 b3 b4 False True False"
    by code_simp
  with True b show ?thesis by (simp add: upper_char_def)
qed

section \<open>Properties of the frequency heuristic\<close>

subsection \<open>The counter and its most common entries\<close>

lemma counter_add_dom: "set (map fst (counter_add k m)) = insert k (set (map fst m))"
  by (induction k m rule: counter_add.induct) auto

lemma counter_add_distinct: "distinct (map fst m) \<Longrightarrow> distinct (map fst (counter_add k m))"
proof (induction m)
  case Nil
  then show ?case by simp
next
  case (Cons e m)
  obtain k' n where e: "e = (k', n)" by (cases e)
  show ?case using Cons counter_add_dom [of k m] by (auto simp: e)
qed

lemma counter_add_map_of:
  "map_of (counter_add k m) = (map_of m)(k \<mapsto> (case map_of m k of None \<Rightarrow> 1 | Some n \<Rightarrow> Suc n))"
  by (induction m) (auto simp: fun_eq_iff)

lemma counts_of_add: "counts_of seen m \<Longrightarrow> counts_of (seen @ [t]) (counter_add t m)"
  unfolding counts_of_def
  by (auto simp: counter_add_distinct counter_add_map_of)

lemma counts_of_foldl:
  "counts_of seen m \<Longrightarrow> counts_of (seen @ toks) (foldl (\<lambda>acc k. counter_add k acc) m toks)"
proof (induction toks arbitrary: seen m)
  case Nil
  then show ?case by simp
next
  case (Cons t toks)
  from Cons.IH [OF counts_of_add [OF Cons.prems, of t]] show ?case by simp
qed

lemma counts_of_Counter: "counts_of toks (Counter toks)"
proof -
  have "counts_of ([] @ toks) (Counter toks)"
    unfolding Counter_def by (rule counts_of_foldl) (simp add: counts_of_def)
  then show ?thesis by simp
qed

lemma Counter_counts:
  assumes "(k, c) \<in> set (Counter toks)"
  shows "k \<in> set toks \<and> c = count_list toks k"
proof -
  from counts_of_Counter [of toks]
  have d: "distinct (map fst (Counter toks))"
    and m: "map_of (Counter toks) k = (if k \<in> set toks then Some (count_list toks k) else None)"
    by (simp_all add: counts_of_def)
  from assms d have "map_of (Counter toks) k = Some c" by simp
  with m show ?thesis by (auto split: if_splits)
qed

lemma most_common_subset: "set (most_common n counts) \<subseteq> set counts"
  unfolding most_common_def by (metis set_sort set_take_subset)

lemma most_common_length: "length (most_common n counts) \<le> n"
  by (simp add: most_common_def)

lemma most_common_top:
  assumes "a \<in> set (most_common n counts)" "b \<in> set counts" "b \<notin> set (most_common n counts)"
  shows "snd b \<le> snd a"
proof -
  let ?f = "\<lambda>kc::string \<times> nat. - int (snd kc)"
  let ?ys = "sort_key ?f counts"
  have srt: "sorted (map ?f (take n ?ys @ drop n ?ys))" by simp
  have "b \<in> set ?ys" using assms(2) by simp
  then have "b \<in> set (take n ?ys) \<union> set (drop n ?ys)"
    by (metis append_take_drop_id set_append)
  with assms(3) have b: "b \<in> set (drop n ?ys)" by (simp add: most_common_def)
  have a: "a \<in> set (take n ?ys)" using assms(1) by (simp add: most_common_def)
  from srt have "\<forall>x\<in>set (map ?f (take n ?ys)). \<forall>y\<in>set (map ?f (drop n ?ys)). x \<le> y"
    unfolding map_append sorted_append by blast
  with a b have "?f a \<le> ?f b" by auto
  then show ?thesis by simp
qed

subsection \<open>The loop keeps the first entry of the highest score\<close>

lemma best_loop_cases:
  "best_loop e f t xs best = best \<or> best_loop e f t xs best \<in> set (scored e f t xs)"
proof (induction xs arbitrary: best)
  case Nil
  then show ?case by simp
next
  case (Cons x xs)
  obtain name freq where x: "x = (name, freq)" by (cases x)
  show ?case
    using Cons.IH [of best]
      Cons.IH [of "(name, candidate_score e f t name freq)"]
    by (auto simp: x scored_def Let_def)
qed



lemma scored_entry:
  "p \<in> set (scored e f t xs) \<Longrightarrow> \<exists>freq. (fst p, freq) \<in> set xs"
  by (force simp: scored_def)



text \<open>The heuristic in terms of the loop, whatever the text.\<close>

lemma frequency_as_loop:
  "company_name_from_proper_noun_frequency early_text filename_hint title_hint =
     fst (best_loop early_text (lower_str filename_hint) (lower_str title_hint)
            (most_common 30 (Counter (rx_findall token_rx early_text))) ([], - (10 ^ 9)))"
proof -
  have e: "rx_findall token_rx [] = []"
    by (simp add: rx_findall_def token_rx_def at_boundary_def word_before_def word_after_def)
  have m: "most_common 30 (Counter []) = []" by (simp add: most_common_def Counter_def)
  show ?thesis
    unfolding company_name_from_proper_noun_frequency_def Let_def
    by (auto simp: e m)
qed

text \<open>
  C10. Whatever the text and the hints, the name the proper-noun frequency heuristic
  returns is empty or one of the 30 entries of the counter with the highest numbers of
  occurrences (carrying its number of occurrences in the text): there are at most 30 of
  them, and no entry left out occurs more often than one of them. A token outside them
  is never selected, whatever its bonuses.
\<close>

theorem frequency_candidate_among_top_30:
  "let tokens = rx_findall token_rx early_text;
       top = most_common 30 (Counter tokens);
       best = company_name_from_proper_noun_frequency early_text filename_hint title_hint
   in (best = [] \<or> (best, count_list tokens best) \<in> set top)
      \<and> length top \<le> 30
      \<and> (\<forall>a\<in>set top. \<forall>b\<in>set (Counter tokens). b \<notin> set top \<longrightarrow> snd b \<le> snd a)"
proof -
  let ?tokens = "rx_findall token_rx early_text"
  let ?top = "most_common 30 (Counter ?tokens)"
  let ?fl = "lower_str filename_hint"
  let ?tl = "lower_str title_hint"
  let ?res = "best_loop early_text ?fl ?tl ?top ([], - (10 ^ 9))"
  have best: "company_name_from_proper_noun_frequency early_text filename_hint title_hint = fst ?res"
    by (rule frequency_as_loop)
  have "fst ?res = [] \<or> (fst ?res, count_list ?tokens (fst ?res)) \<in> set ?top"
  proof (cases "?res = ([], - (10 ^ 9))")
    case True
    then show ?thesis by simp
  next
    case False
    with best_loop_cases [of early_text ?fl ?tl ?top "([], - (10 ^ 9))"]
    have "?res \<in> set (scored early_text ?fl ?tl ?top)" by blast
    then obtain freq where f: "(fst ?res, freq) \<in> set ?top" using scored_entry by blast
    with most_common_subset have "(fst ?res, freq) \<in> set (Counter ?tokens)" by blast
    from Counter_counts [OF this] f show ?thesis by simp
  qed
  moreover have "length ?top \<le> 30" by (rule most_common_length)
  moreover have "\<forall>a\<in>set ?top. \<forall>b\<in>set (Counter ?tokens). b \<notin> set ?top \<longrightarrow> snd b \<le> snd a"
    using most_common_top by blast
  ultimately show ?thesis unfolding Let_def best by blast
qed


lemma crowded_tokens:
  "rx_findall token_rx crowded_text =
     [''Aaa'', ''Bbb'', ''Ccc'', ''Ddd'', ''Eee'', ''Fff'', ''Ggg'', ''Hhh'', ''Iii'', ''Jjj'',
      ''Kkk'', ''Lll'', ''Mmm'', ''Nnn'', ''Ooo'', ''Ppp'', ''Qqq'', ''Rrr'', ''Sss'', ''Ttt'',
      ''Uuu'', ''Vvv'', ''Www'', ''Xxx'', ''Yyy'', ''Zzz'', ''Aab'', ''Aac'', ''Aad'', ''Aae'',
      ''Zeta'']"
  by code_simp

lemma crowded_top:
  "most_common 30 (Counter (rx_findall token_rx crowded_text)) =
     map (\<lambda>k. (k, 1))
     [''Aaa'', ''Bbb'', ''Ccc'', ''Ddd'', ''Eee'', ''Fff'', ''Ggg'', ''Hhh'', ''Iii'', ''Jjj'',
      ''Kkk'', ''Lll'', ''Mmm'', ''Nnn'', ''Ooo'', ''Ppp'', ''Qqq'', ''Rrr'', ''Sss'', ''Ttt'',
      ''Uuu'', ''Vvv'', ''Www'', ''Xxx'', ''Yyy'', ''Zzz'', ''Aab'', ''Aac'', ''Aad'', ''Aae'']"
  unfolding crowded_tokens by code_simp

lemma crowded_zeta_score: "candidate_score crowded_text ''zeta.pdf'' [] ''Zeta'' 1 = 20"
  by code_simp

lemma crowded_aaa_score: "candidate_score crowded_text ''zeta.pdf'' [] ''Aaa'' 1 = 2"
  by code_simp

theorem frequency_candidate_among_top_30_witness:
  "company_name_from_proper_noun_frequency crowded_text ''zeta.pdf'' [] \<noteq> ''Zeta''
   \<and> (''Zeta'', 1) \<in> set (Counter (rx_findall token_rx crowded_text))
   \<and> (''Zeta'', 1) \<notin> set (most_common 30 (Counter (rx_findall token_rx crowded_text)))
   \<and> candidate_score crowded_text ''zeta.pdf'' [] ''Zeta'' 1 = 20
   \<and> candidate_score crowded_text ''zeta.pdf'' [] ''Aaa'' 1 = 2"
proof -
  have z: "(''Zeta'', 1) \<in> set (Counter (rx_findall token_rx crowded_text))"
    unfolding crowded_tokens by code_simp
  note a = crowded_aaa_score
  have n: "\<And>c. (''Zeta'', c) \<notin> set (most_common 30 (Counter (rx_findall token_rx crowded_text)))"
    unfolding crowded_top by simp
  from frequency_candidate_among_top_30 [of crowded_text "''zeta.pdf''" "[]"]
  have "company_name_from_proper_noun_frequency crowded_text ''zeta.pdf'' [] = [] \<or>
        (\<exists>c. (company_name_from_proper_noun_frequency crowded_text ''zeta.pdf'' [], c)
           \<in> set (most_common 30 (Counter (rx_findall token_rx crowded_text))))"
    unfolding Let_def by blast
  with n have "company_name_from_proper_noun_frequency crowded_text ''zeta.pdf'' [] \<noteq> ''Zeta''"
    by auto
  with z a n crowded_zeta_score show ?thesis by blast
qed













section \<open>Properties of the cascade\<close>

subsection \<open>Stripping and collapsing keep a solid piece of the text\<close>

lemma is_space_lower_char [simp]: "is_space (lower_char c) = is_space c"
  by (auto simp: is_space_def lower_char_def is_upper_def Let_def)

lemma is_space_upper_char [simp]: "is_space (upper_char c) = is_space c"
  by (auto simp: is_space_def upper_char_def is_lower_def Let_def)

lemma lower_char_blank [simp]: "lower_char CHR '' '' = CHR '' ''"
  by (simp add: lower_char_def is_upper_def)

lemma upper_char_blank [simp]: "upper_char CHR '' '' = CHR '' ''"
  by (simp add: upper_char_def is_lower_def)

lemma strip_map:
  assumes "\<And>c. is_space (f c) = is_space c"
  shows "strip (map f s) = map f (strip s)"
  by (simp add: strip_def lstrip_def rstrip_def dropWhile_map rev_map comp_def assms)

lemma collapse_runs_map:
  assumes "\<And>c. is_space (f c) = is_space c" "f CHR '' '' = CHR '' ''"
  shows "collapse_runs is_space b (map f s) = map f (collapse_runs is_space b s)"
  by (induction s arbitrary: b) (simp_all add: assms)

lemma tidy_lower: "tidy (lower_str s) = lower_str (tidy s)"
  by (simp add: tidy_def lower_str_def sub_spaces_def strip_map collapse_runs_map)

lemma tidy_upper: "tidy (upper_str s) = upper_str (tidy s)"
  by (simp add: tidy_def upper_str_def sub_spaces_def strip_map collapse_runs_map)

lemma contains_iff: "contains s sub \<longleftrightarrow> (\<exists>a b. s = a @ sub @ b)"
proof (induction s)
  case Nil
  then show ?case by auto
next
  case (Cons c cs)
  have st: "startswith (c # cs) sub \<longleftrightarrow> (\<exists>b. c # cs = sub @ b)"
    unfolding startswith_def by (metis append_eq_conv_conj)
  show ?case
  proof
    assume "contains (c # cs) sub"
    then consider "startswith (c # cs) sub" | "contains cs sub" by auto
    then show "\<exists>a b. c # cs = a @ sub @ b"
    proof cases
      case 1
      then obtain b where "c # cs = sub @ b" using st by blast
      then have "c # cs = [] @ sub @ b" by simp
      then show ?thesis by blast
    next
      case 2
      then obtain a b where "cs = a @ sub @ b" using Cons.IH by blast
      then have "c # cs = (c # a) @ sub @ b" by simp
      then show ?thesis by blast
    qed
  next
    assume "\<exists>a b. c # cs = a @ sub @ b"
    then obtain a b where ab: "c # cs = a @ sub @ b" by blast
    show "contains (c # cs) sub"
    proof (cases a)
      case Nil
      with ab have "c # cs = sub @ b" by simp
      then have "startswith (c # cs) sub" using st by blast
      then show ?thesis by simp
    next
      case (Cons x a')
      with ab have "cs = a' @ sub @ b" by simp
      with Cons.IH show ?thesis by auto
    qed
  qed
qed

lemma dropWhile_stop: "\<not> P c \<Longrightarrow> dropWhile P (x @ c # z) = dropWhile P x @ c # z"
  by (induction x) auto

lemma lstrip_keeps: "solid sub \<Longrightarrow> \<exists>a'. lstrip (a @ sub @ b) = a' @ sub @ b"
proof -
  assume s: "solid sub"
  then obtain c r where sub: "sub = c # r" and c: "\<not> is_space c"
    by (cases sub) (auto simp: solid_def)
  have "dropWhile is_space (a @ sub @ b) = dropWhile is_space a @ sub @ b"
    using dropWhile_stop [of is_space c a "r @ b"] c by (simp add: sub)
  then show ?thesis by (auto simp: lstrip_def)
qed

lemma rstrip_keeps: "solid sub \<Longrightarrow> \<exists>b'. rstrip (a @ sub @ b) = a @ sub @ b'"
proof -
  assume s: "solid sub"
  then obtain c r where sub: "rev sub = c # r" and c: "\<not> is_space c"
    by (cases "rev sub") (auto simp: solid_def last_rev [symmetric] simp del: last_rev)
  have "dropWhile is_space (rev b @ rev sub @ rev a) = dropWhile is_space (rev b) @ rev sub @ rev a"
    using dropWhile_stop [of is_space c "rev b" "r @ rev a"] c by (simp add: sub)
  then have "rstrip (a @ sub @ b) = a @ sub @ rev (dropWhile is_space (rev b))"
    by (simp add: rstrip_def)
  then show ?thesis by blast
qed

lemma strip_keeps: "solid sub \<Longrightarrow> \<exists>a' b'. strip (a @ sub @ b) = a' @ sub @ b'"
  unfolding strip_def using lstrip_keeps rstrip_keeps by metis

lemma collapse_runs_ahead:
  "\<not> P c \<Longrightarrow> collapse_runs P f (a @ c # z) = collapse_runs P f a @ collapse_runs P False (c # z)"
  by (induction a arbitrary: f) auto

lemma collapse_runs_behind:
  "sub \<noteq> [] \<Longrightarrow> \<not> P (last sub) \<Longrightarrow>
   collapse_runs P f (sub @ b) = collapse_runs P f sub @ collapse_runs P False b"
proof (induction sub arbitrary: f)
  case Nil
  then show ?case by simp
next
  case (Cons x sub)
  show ?case
  proof (cases "sub = []")
    case True
    with Cons.prems show ?thesis by simp
  next
    case False
    with Cons.prems have "\<not> P (last sub)" by simp
    from Cons.IH [OF False this] show ?thesis by simp
  qed
qed

lemma sub_spaces_keeps:
  assumes "solid sub" "sub_spaces sub = sub"
  shows "\<exists>a' b'. sub_spaces (a @ sub @ b) = a' @ sub @ b'"
proof -
  from assms(1) obtain c r where sub: "sub = c # r" and c: "\<not> is_space c"
    by (cases sub) (auto simp: solid_def)
  have "collapse_runs is_space False (a @ sub @ b)
        = collapse_runs is_space False a @ collapse_runs is_space False (sub @ b)"
    using collapse_runs_ahead [of is_space c False a "r @ b"] c by (simp add: sub)
  also have "collapse_runs is_space False (sub @ b)
        = collapse_runs is_space False sub @ collapse_runs is_space False b"
    using assms(1) by (intro collapse_runs_behind) (auto simp: solid_def)
  finally show ?thesis using assms(2) by (auto simp: sub_spaces_def)
qed

lemma tidy_contains:
  assumes "solid sub" "sub_spaces sub = sub" "contains y sub"
  shows "contains (tidy y) sub"
proof -
  from assms(3) obtain a b where "y = a @ sub @ b" by (auto simp: contains_iff)
  then obtain a1 b1 where "strip y = a1 @ sub @ b1" using strip_keeps [OF assms(1)] by metis
  then obtain a2 b2 where "sub_spaces (strip y) = a2 @ sub @ b2"
    using sub_spaces_keeps [OF assms(1,2)] by metis
  then obtain a3 b3 where "tidy y = a3 @ sub @ b3"
    unfolding tidy_def using strip_keeps [OF assms(1)] by metis
  then show ?thesis by (auto simp: contains_iff)
qed

lemma generic_substrings_solid:
  "sub \<in> set GENERIC_SUBSTRINGS \<Longrightarrow> solid sub \<and> sub_spaces sub = sub"
  by (auto simp: GENERIC_SUBSTRINGS_def solid_def sub_spaces_def is_space_def)

lemma generic_phrases_tidy: "p \<in> set GENERIC_COVER_PHRASES \<Longrightarrow> tidy p = p"
  by (auto simp: GENERIC_COVER_PHRASES_def tidy_def strip_def lstrip_def rstrip_def
        sub_spaces_def is_space_def)

lemma not_generic_clean:
  assumes "\<not> is_generic_phrase (strip c)"
  shows "upper_str c \<notin> set GENERIC_COVER_PHRASES \<and>
         (\<forall>sub\<in>set GENERIC_SUBSTRINGS. \<not> contains (lower_str c) sub)"
proof -
  from assms have ne: "strip c \<noteq> []" by (auto simp: is_generic_phrase_def)
  from assms ne have up: "upper_str (tidy c) \<notin> set GENERIC_COVER_PHRASES"
    and low: "\<not> list_ex (contains (lower_str (tidy c))) GENERIC_SUBSTRINGS"
    by (auto simp: is_generic_phrase_def tidy_def Let_def split: if_splits)
  have "upper_str c \<notin> set GENERIC_COVER_PHRASES"
  proof
    assume a: "upper_str c \<in> set GENERIC_COVER_PHRASES"
    then have "tidy (upper_str c) = upper_str c" by (rule generic_phrases_tidy)
    then have "upper_str (tidy c) = upper_str c" by (simp add: tidy_upper)
    with a up show False by simp
  qed
  moreover have "\<not> contains (lower_str c) sub" if s: "sub \<in> set GENERIC_SUBSTRINGS" for sub
  proof
    assume "contains (lower_str c) sub"
    then have "contains (tidy (lower_str c)) sub"
      using generic_substrings_solid [OF s] tidy_contains by blast
    then have "contains (lower_str (tidy c)) sub" by (simp add: tidy_lower)
    with s low show False by (auto simp: list_ex_iff)
  qed
  ultimately show ?thesis by blast
qed

subsection \<open>The cascade returns the first candidate that passes the gate\<close>

lemma accept_value_text:
  "accept_value (Text c) e n otherwise =
     (if is_valid_company_candidate c e n then Inr c else otherwise)"
  by (simp add: accept_value_def)

lemma proper_noun_frequency_at_text:
  "proper_noun_frequency_at e f (Text t) =
     Inr (company_name_from_proper_noun_frequency e f t)"
  by (simp add: proper_noun_frequency_at_def value_or_empty_def)

lemma is_text_cases: "is_text v \<Longrightarrow> \<exists>s. v = Text s"
  by (cases v) (simp_all add: is_text_def)

lemma extract_company_name_find:
  assumes "text_entries parsed_deck"
  shows "extract_company_name llm_client parsed_deck =
     Inr (case find (passes_gate parsed_deck) (stage_candidates llm_client parsed_deck) of
            None \<Rightarrow> ''Unknown Company'' | Some cn \<Rightarrow> fst cn)"
proof -
  from assms obtain g t
    where g: "get_or_empty (metadata parsed_deck) ''company_name_guess'' = Text g"
      and t: "get_or_empty (metadata parsed_deck) ''title'' = Text t"
    unfolding text_entries_def using is_text_cases by blast
  show ?thesis
    unfolding extract_company_name_def stage_candidates_def passes_gate_def Let_def g t
    by (simp add: accept_value_text proper_noun_frequency_at_text value_strip_def text_of_def
        split: list.split option.split)
qed

lemma strip_nonempty: "strip c \<noteq> [] \<Longrightarrow> c \<noteq> []"
  by (auto simp: strip_def lstrip_def rstrip_def)

lemma plausible_nonempty: "is_plausible_company_name s \<Longrightarrow> strip s \<noteq> []"
  unfolding is_plausible_company_name_def Let_def by (auto split: if_splits)

lemma valid_candidate:
  assumes "is_valid_company_candidate c e n"
  shows "c \<noteq> [] \<and> \<not> is_generic_phrase (strip c)"
proof -
  from assms have p: "is_plausible_company_name (strip c)" and g: "\<not> is_generic_phrase (strip c)"
    unfolding is_valid_company_candidate_def Let_def by (auto split: if_splits)
  from plausible_nonempty [OF p] have "strip c \<noteq> []" by (rule strip_nonempty)
  with strip_nonempty g show ?thesis by blast
qed

lemma find_passes:
  "find (passes_gate d) xs = Some cn \<Longrightarrow>
   is_valid_company_candidate (fst cn) (get_early_pages_text d 5) (snd cn)"
  by (auto simp: find_Some_iff passes_gate_def)

subsection \<open>What a \<^verbatim>\<open>bytes\<close> entry does to the cascade\<close>

lemma plausible_bytes_error: "is_plausible_company_name_bytes b = Inl e \<Longrightarrow> e = TypeError"
  unfolding is_plausible_company_name_bytes_def Let_def by (auto split: if_splits)

lemma valid_bytes_error: "is_valid_company_candidate_bytes b = Inl e \<Longrightarrow> e = TypeError"
  unfolding is_valid_company_candidate_bytes_def Let_def
  by (auto split: sum.splits if_splits dest: plausible_bytes_error)

lemma hint_bytes_error: "hint_bonus_bytes_title f name = Inl e \<Longrightarrow> e = TypeError"
  unfolding hint_bonus_bytes_title_def Let_def by (auto split: if_splits)

lemma score_bytes_error: "candidate_score_bytes_title t f name freq = Inl e \<Longrightarrow> e = TypeError"
  unfolding candidate_score_bytes_title_def Let_def
  by (auto split: sum.splits dest: hint_bytes_error)

lemma best_loop_bytes_error:
  "best_loop_bytes_title t f entries best = Inl e \<Longrightarrow> e = TypeError"
proof (induction entries arbitrary: best)
  case Nil
  then show ?case by simp
next
  case (Cons x entries)
  obtain name freq where x: "x = (name, freq)" by (cases x)
  from Cons.prems Cons.IH show ?case
    unfolding x by (auto split: if_splits sum.splits dest: score_bytes_error)
qed

lemma frequency_at_error:
  "proper_noun_frequency_at t f v = Inl e \<Longrightarrow> e = TypeError \<and> \<not> is_text (value_or_empty (Some v))"
  unfolding proper_noun_frequency_at_def company_name_from_proper_noun_frequency_bytes_title_def
    Let_def
  by (auto simp: is_text_def split: meta_value.splits sum.splits if_splits
      dest: best_loop_bytes_error)

lemma accept_value_error:
  "accept_value v t n otherwise = Inl e \<Longrightarrow>
   (e = TypeError \<and> \<not> is_text v) \<or> otherwise = Inl e"
  unfolding accept_value_def
  by (auto simp: is_text_def split: meta_value.splits sum.splits if_splits
      dest: valid_bytes_error)

lemma accept_value_result:
  "accept_value v t n otherwise = Inr r \<Longrightarrow>
   is_valid_company_candidate r t n \<or> otherwise = Inr r"
  unfolding accept_value_def
  by (auto split: meta_value.splits sum.splits if_splits)

lemma is_text_value_strip: "is_text (value_strip v) = is_text v"
  by (cases v) (simp_all add: is_text_def value_strip_def)

lemma value_or_empty_get:
  "value_or_empty (Some (get_or_empty d k)) = get_or_empty d k"
  unfolding get_or_empty_def value_or_empty_def
  by (auto split: option.splits meta_value.splits)

lemma extract_company_name_error:
  assumes "extract_company_name llm_client parsed_deck = Inl e"
  shows "e = TypeError \<and> \<not> text_entries parsed_deck"
proof -
  let ?t = "get_early_pages_text parsed_deck 5"
  let ?g = "get_or_empty (metadata parsed_deck) ''company_name_guess''"
  let ?title = "get_or_empty (metadata parsed_deck) ''title''"
  define tail where "tail =
    (case llm_client of
       None \<Rightarrow> (Inr ''Unknown Company'' :: error + string)
     | Some llm \<Rightarrow>
         let company_name = extract_company_name_with_llm llm parsed_deck
         in if is_valid_company_candidate company_name ?t 0
            then Inr company_name else Inr ''Unknown Company'')"
  have tail: "tail \<noteq> Inl e"
    unfolding tail_def Let_def by (simp split: option.split)
  define later where "later =
    (case proper_noun_frequency_at ?t (filename parsed_deck) ?title of
       Inl e \<Rightarrow> Inl e
     | Inr freq_candidate \<Rightarrow>
         if is_valid_company_candidate freq_candidate ?t 1 then Inr freq_candidate
         else accept_value (value_strip ?title) ?t 0 tail)"
  have later: "e = TypeError \<and> \<not> is_text ?title" if "later = Inl e"
  proof (cases "proper_noun_frequency_at ?t (filename parsed_deck) ?title")
    case (Inl e')
    with that have "e' = e" by (simp add: later_def)
    with frequency_at_error [OF Inl] show ?thesis by (simp add: value_or_empty_get)
  next
    case (Inr c)
    with that have "accept_value (value_strip ?title) ?t 0 tail = Inl e"
      by (simp add: later_def split: if_splits)
    from accept_value_error [OF this] tail show ?thesis by (simp add: is_text_value_strip)
  qed
  define middle where "middle =
    (case (case pages parsed_deck of
             [] \<Rightarrow> None
           | p # _ \<Rightarrow>
               let cover_candidate = company_name_from_cover_text (page_text p)
               in if is_valid_company_candidate cover_candidate ?t 2
                  then Some cover_candidate else None) of
       Some cover_candidate \<Rightarrow> Inr cover_candidate
     | None \<Rightarrow> later)"
  have middle: "e = TypeError \<and> \<not> is_text ?title" if "middle = Inl e"
    using that later unfolding middle_def by (simp split: option.splits)
  have "extract_company_name llm_client parsed_deck = accept_value (value_strip ?g) ?t 2 middle"
    unfolding extract_company_name_def middle_def later_def tail_def Let_def ..
  with assms have "accept_value (value_strip ?g) ?t 2 middle = Inl e" by simp
  from accept_value_error [OF this] middle show ?thesis
    unfolding text_entries_def by (auto simp: is_text_value_strip)
qed

lemma extract_company_name_result:
  assumes "extract_company_name llm_client parsed_deck = Inr r"
  shows "r = ''Unknown Company'' \<or>
         (\<exists>n. is_valid_company_candidate r (get_early_pages_text parsed_deck 5) n)"
proof -
  let ?t = "get_early_pages_text parsed_deck 5"
  let ?g = "get_or_empty (metadata parsed_deck) ''company_name_guess''"
  let ?title = "get_or_empty (metadata parsed_deck) ''title''"
  let ?P = "\<lambda>x. x = Inr r \<longrightarrow>
              r = ''Unknown Company'' \<or> (\<exists>n. is_valid_company_candidate r ?t n)"
  define tail where "tail =
    (case llm_client of
       None \<Rightarrow> (Inr ''Unknown Company'' :: error + string)
     | Some llm \<Rightarrow>
         let company_name = extract_company_name_with_llm llm parsed_deck
         in if is_valid_company_candidate company_name ?t 0
            then Inr company_name else Inr ''Unknown Company'')"
  have tail: "?P tail"
    unfolding tail_def Let_def by (auto split: option.splits if_splits)
  define later where "later =
    (case proper_noun_frequency_at ?t (filename parsed_deck) ?title of
       Inl e \<Rightarrow> Inl e
     | Inr freq_candidate \<Rightarrow>
         if is_valid_company_candidate freq_candidate ?t 1 then Inr freq_candidate
         else accept_value (value_strip ?title) ?t 0 tail)"
  have later: "?P later"
  proof
    assume l: "later = Inr r"
    show "r = ''Unknown Company'' \<or> (\<exists>n. is_valid_company_candidate r ?t n)"
    proof (cases "proper_noun_frequency_at ?t (filename parsed_deck) ?title")
      case (Inl e')
      with l show ?thesis by (simp add: later_def)
    next
      case (Inr c)
      show ?thesis
      proof (cases "is_valid_company_candidate c ?t 1")
        case True
        with l Inr have "r = c" by (simp add: later_def)
        with True show ?thesis by blast
      next
        case False
        with l Inr have "accept_value (value_strip ?title) ?t 0 tail = Inr r"
          by (simp add: later_def)
        from accept_value_result [OF this] tail show ?thesis by blast
      qed
    qed
  qed
  define middle where "middle =
    (case (case pages parsed_deck of
             [] \<Rightarrow> None
           | p # _ \<Rightarrow>
               let cover_candidate = company_name_from_cover_text (page_text p)
               in if is_valid_company_candidate cover_candidate ?t 2
                  then Some cover_candidate else None) of
       Some cover_candidate \<Rightarrow> Inr cover_candidate
     | None \<Rightarrow> later)"
  have middle: "?P middle"
    using later unfolding middle_def Let_def
    by (auto split: option.splits list.splits if_splits)
  have "extract_company_name llm_client parsed_deck = accept_value (value_strip ?g) ?t 2 middle"
    unfolding extract_company_name_def middle_def later_def tail_def Let_def ..
  with assms have "accept_value (value_strip ?g) ?t 2 middle = Inr r" by simp
  from accept_value_result [OF this] middle show ?thesis by blast
qed

lemma bytes_titled_raises: "extract_company_name None bytes_titled_deck = Inl TypeError"
  by code_simp

lemma bytes_titled_entries: "\<not> text_entries bytes_titled_deck"
  by code_simp

subsection \<open>The statements about the cascade\<close>

lemma shouting_early:
  "get_early_pages_text shouting_deck 5 =
     ''INVESTOR DECK\<newline>INVESTOR DECK\<newline>INVESTOR DECK\<newline>Acme Acme''"
  by code_simp

lemma shouting_entries: "text_entries shouting_deck"
  by code_simp

lemma shouting_candidates:
  "stage_candidates None shouting_deck =
     [(''INVESTOR DECK'', 2), (''Acme Acme'', 2), (''Acme'', 1), ([], 0)]"
  by code_simp

lemma shouting_gate:
  "\<not> passes_gate shouting_deck (''INVESTOR DECK'', 2)"
  "\<not> passes_gate shouting_deck (''Acme Acme'', 2)"
  "passes_gate shouting_deck (''Acme'', 1)"
  unfolding passes_gate_def shouting_early fst_conv snd_conv by code_simp+

lemma shouting_result: "extract_company_name None shouting_deck = Inr ''Acme''"
  by (simp add: extract_company_name_find [OF shouting_entries] shouting_candidates shouting_gate)

lemma empty_entries: "text_entries empty_deck"
  by code_simp

lemma empty_candidates: "stage_candidates None empty_deck = [([], 2), ([], 1), ([], 0)]"
  by code_simp

lemma empty_gate:
  "\<not> passes_gate empty_deck ([], 2)" "\<not> passes_gate empty_deck ([], 1)"
  "\<not> passes_gate empty_deck ([], 0)"
  by code_simp+

lemma titled_entries: "text_entries titled_deck"
  by code_simp

lemma titled_candidates:
  "stage_candidates None titled_deck = [([], 2), ([], 1), (''Unknown Company'', 0)]"
  by code_simp

lemma titled_gate:
  "\<not> passes_gate titled_deck ([], 2)" "\<not> passes_gate titled_deck ([], 1)"
  "passes_gate titled_deck (''Unknown Company'', 0)"
  by code_simp+

lemma sentinel_not_generic:
  "upper_str ''Unknown Company'' \<notin> set GENERIC_COVER_PHRASES \<and>
   (\<forall>sub\<in>set GENERIC_SUBSTRINGS. \<not> contains (lower_str ''Unknown Company'') sub)"
  by code_simp

lemma shouting_count:
  "count_occurrences (get_early_pages_text shouting_deck 5) ''INVESTOR DECK'' = 3"
  unfolding shouting_early by code_simp

text \<open>
  C1 (amended). Company-name resolution raises for no other reason than a metadata entry
  (the title or the largest-text guess) that is a \<^verbatim>\<open>bytes\<close> object, and the exception is
  then \<^verbatim>\<open>TypeError\<close>; a string it returns is never empty. For every parsed deck whose two
  entries are text (or absent) and every client (or none), it returns a string: the first
  candidate of the cascade that passes the validation gate, and the sentinel
  \<open>Unknown Company\<close> when none does. So it returns the sentinel whenever no candidate
  passes, and a result other than the sentinel is a candidate that passed. An exception of
  the client is absorbed in the last stage.
\<close>

theorem resolution_returns_first_valid_candidate:
  "(\<forall>e. extract_company_name llm_client parsed_deck = Inl e
        \<longrightarrow> e = TypeError \<and> \<not> text_entries parsed_deck)
   \<and> (\<forall>r. extract_company_name llm_client parsed_deck = Inr r \<longrightarrow> r \<noteq> [])
   \<and> (text_entries parsed_deck \<longrightarrow>
        (let cs = stage_candidates llm_client parsed_deck;
             r = (case find (passes_gate parsed_deck) cs of
                    None \<Rightarrow> ''Unknown Company'' | Some cn \<Rightarrow> fst cn)
         in extract_company_name llm_client parsed_deck = Inr r
            \<and> (\<not> list_ex (passes_gate parsed_deck) cs \<longrightarrow> r = ''Unknown Company'')
            \<and> (r \<noteq> ''Unknown Company'' \<longrightarrow> list_ex (passes_gate parsed_deck) cs)))"
proof -
  let ?cs = "stage_candidates llm_client parsed_deck"
  let ?r = "case find (passes_gate parsed_deck) ?cs of
              None \<Rightarrow> ''Unknown Company'' | Some cn \<Rightarrow> fst cn"
  have err: "\<forall>e. extract_company_name llm_client parsed_deck = Inl e
        \<longrightarrow> e = TypeError \<and> \<not> text_entries parsed_deck"
    using extract_company_name_error by blast
  have ne: "\<forall>r. extract_company_name llm_client parsed_deck = Inr r \<longrightarrow> r \<noteq> []"
  proof (intro allI impI)
    fix r
    assume "extract_company_name llm_client parsed_deck = Inr r"
    from extract_company_name_result [OF this] valid_candidate show "r \<noteq> []" by auto
  qed
  have none: "?r = ''Unknown Company''" if "\<not> list_ex (passes_gate parsed_deck) ?cs"
  proof -
    from that have "find (passes_gate parsed_deck) ?cs = None"
      by (simp add: find_None_iff list_ex_iff)
    then show ?thesis by simp
  qed
  from none have some: "?r \<noteq> ''Unknown Company'' \<longrightarrow> list_ex (passes_gate parsed_deck) ?cs"
    by blast
  have entries: "text_entries parsed_deck \<longrightarrow>
        (extract_company_name llm_client parsed_deck = Inr ?r
            \<and> (\<not> list_ex (passes_gate parsed_deck) ?cs \<longrightarrow> ?r = ''Unknown Company'')
            \<and> (?r \<noteq> ''Unknown Company'' \<longrightarrow> list_ex (passes_gate parsed_deck) ?cs))"
    using extract_company_name_find none some by blast
  from err ne entries show ?thesis unfolding Let_def by blast
qed

theorem resolution_returns_first_valid_candidate_witness:
  "text_entries shouting_deck
   \<and> extract_company_name None shouting_deck = Inr ''Acme''
   \<and> list_ex (passes_gate shouting_deck) (stage_candidates None shouting_deck)
   \<and> text_entries empty_deck
   \<and> \<not> list_ex (passes_gate empty_deck) (stage_candidates None empty_deck)
   \<and> extract_company_name None empty_deck = Inr ''Unknown Company''
   \<and> extract_company_name None bytes_titled_deck = Inl TypeError
   \<and> \<not> text_entries bytes_titled_deck"
proof -
  from resolution_returns_first_valid_candidate [where llm_client = None and parsed_deck = shouting_deck]
  have a: "extract_company_name None shouting_deck = Inr ''Acme''"
    unfolding Let_def by (simp add: shouting_entries shouting_candidates shouting_gate)
  have b: "\<not> list_ex (passes_gate empty_deck) (stage_candidates None empty_deck)"
    by (simp add: empty_candidates empty_gate)
  from resolution_returns_first_valid_candidate [where llm_client = None and parsed_deck = empty_deck]
  have c: "extract_company_name None empty_deck = Inr ''Unknown Company''"
    unfolding Let_def by (simp add: empty_entries empty_candidates empty_gate)
  have d: "list_ex (passes_gate shouting_deck) (stage_candidates None shouting_deck)"
    by (simp add: shouting_candidates shouting_gate)
  have e: "extract_company_name None bytes_titled_deck = Inl TypeError"
    by (rule bytes_titled_raises)
  from resolution_returns_first_valid_candidate [where llm_client = None and parsed_deck = bytes_titled_deck] e
  have f: "\<not> text_entries bytes_titled_deck" by blast
  from a b c d e f shouting_entries empty_entries show ?thesis by blast
qed

text \<open>
  C1 as stated fails twice. A deck without pages whose title is \<open>Unknown Company\<close> gets
  that very text from the title stage, whose candidate passes the gate; so the sentinel
  text is returned although a candidate passed. And a deck without pages whose title is
  the \<^verbatim>\<open>bytes\<close> object \<^verbatim>\<open>b'Acme Robotics'\<close> makes the gate of the title stage raise
  \<^verbatim>\<open>TypeError\<close>: nothing is returned.
\<close>

theorem sentinel_returned_although_candidate_passes:
  "extract_company_name None titled_deck = Inr ''Unknown Company''
   \<and> list_ex (passes_gate titled_deck) (stage_candidates None titled_deck)
   \<and> extract_company_name None bytes_titled_deck = Inl TypeError"
  by (simp add: extract_company_name_find [OF titled_entries] titled_candidates titled_gate
      bytes_titled_raises)

text \<open>
  C6. For every parsed deck and every client (or none), the name that company-name
  resolution returns is not a generic cover phrase: in upper case it is none of the
  phrases of the block list, and in lower case it contains none of the blocked pieces,
  however often and however large the phrase stands in the deck. It returns a name
  unless an entry of the metadata is a \<^verbatim>\<open>bytes\<close> object, where it can raise \<^verbatim>\<open>TypeError\<close>.
\<close>

theorem resolved_name_never_generic:
  "case extract_company_name llm_client parsed_deck of
     Inl e \<Rightarrow> e = TypeError \<and> \<not> text_entries parsed_deck
   | Inr r \<Rightarrow>
       upper_str r \<notin> set GENERIC_COVER_PHRASES \<and>
       (\<forall>sub\<in>set GENERIC_SUBSTRINGS. \<not> contains (lower_str r) sub)"
proof (cases "extract_company_name llm_client parsed_deck")
  case (Inl e)
  with extract_company_name_error [OF Inl] show ?thesis by simp
next
  case (Inr r)
  have "upper_str r \<notin> set GENERIC_COVER_PHRASES \<and>
       (\<forall>sub\<in>set GENERIC_SUBSTRINGS. \<not> contains (lower_str r) sub)"
  proof (cases "r = ''Unknown Company''")
    case True
    then show ?thesis using sentinel_not_generic by simp
  next
    case False
    with extract_company_name_result [OF Inr] obtain n
      where "is_valid_company_candidate r (get_early_pages_text parsed_deck 5) n" by blast
    then have "\<not> is_generic_phrase (strip r)" using valid_candidate by blast
    from not_generic_clean [OF this] show ?thesis .
  qed
  with Inr show ?thesis by simp
qed

theorem resolved_name_never_generic_witness:
  "extract_company_name None shouting_deck = Inr ''Acme''
   \<and> upper_str ''Acme'' \<noteq> ''INVESTOR DECK''
   \<and> \<not> contains (lower_str ''Acme'') ''investor''
   \<and> \<not> contains (lower_str ''Acme'') ''confidential''
   \<and> get_or_empty (metadata shouting_deck) ''company_name_guess'' = Text ''INVESTOR DECK''
   \<and> count_occurrences (get_early_pages_text shouting_deck 5) ''INVESTOR DECK'' = 3"
proof -
  have g: "get_or_empty (metadata shouting_deck) ''company_name_guess'' = Text ''INVESTOR DECK''"
    by code_simp
  from resolved_name_never_generic [where llm_client = None and parsed_deck = shouting_deck] g shouting_count shouting_result
  show ?thesis by (simp add: GENERIC_COVER_PHRASES_def GENERIC_SUBSTRINGS_def)
qed

section \<open>Properties of ingestion\<close>

lemma parse_pages_ok:
  assumes "list_all yields_text raw"
  shows "\<exists>ps md'. parse_pages i raw acc md = Inr (acc @ ps, md')
           \<and> length ps = length raw
           \<and> map page_number ps = [i + 1 ..< i + 1 + length raw]
           \<and> map page_text ps = map kept_text raw
           \<and> md' ''error'' = md ''error''
           \<and> dom md' \<subseteq> insert ''company_name_guess'' (dom md)"
  using assms
proof (induction raw arbitrary: i acc md)
  case Nil
  then show ?case by auto
next
  case (Cons page rest)
  from Cons.prems obtain t where t: "extract_text page = Inr t"
    by (auto simp: yields_text_def split: sum.splits)
  from Cons.prems have rest: "list_all yields_text rest" by simp
  define content where "content =
    \<lparr>page_number = i + 1, page_text = clean_text (or_empty t),
      tables = clean_tables (extract_tables page), has_images = images page\<rparr>"
  define md1 where "md1 =
    (if i = 0
     then (case largest_text page of
             None \<Rightarrow> md
           | Some guess \<Rightarrow>
               if guess \<noteq> [] then md(''company_name_guess'' \<mapsto> Text guess) else md)
     else md)"
  have step: "parse_pages i (page # rest) acc md = parse_pages (i + 1) rest (acc @ [content]) md1"
    by (simp add: t content_def md1_def Let_def)
  have e1: "md1 ''error'' = md ''error''"
    by (simp add: md1_def split: option.splits)
  have d1: "dom md1 \<subseteq> insert ''company_name_guess'' (dom md)"
    by (auto simp: md1_def split: option.splits if_splits)
  from Cons.IH [OF rest, of "i + 1" "acc @ [content]" md1]
  obtain ps md' where r: "parse_pages (i + 1) rest (acc @ [content]) md1
        = Inr ((acc @ [content]) @ ps, md')"
    and l: "length ps = length rest"
    and n: "map page_number ps = [i + 1 + 1 ..< i + 1 + 1 + length rest]"
    and x: "map page_text ps = map kept_text rest"
    and e: "md' ''error'' = md1 ''error''"
    and d: "dom md' \<subseteq> insert ''company_name_guess'' (dom md1)"
    by blast
  have k: "kept_text page = clean_text (or_empty t)" by (simp add: kept_text_def t)
  have u: "[i + 1 ..< i + 1 + length (page # rest)] = (i + 1) # [i + 1 + 1 ..< i + 1 + 1 + length rest]"
    by (subst upt_rec) simp
  have "parse_pages i (page # rest) acc md = Inr (acc @ (content # ps), md')"
    unfolding step r by simp
  moreover have "length (content # ps) = length (page # rest)" using l by simp
  moreover have "map page_number (content # ps) = [i + 1 ..< i + 1 + length (page # rest)]"
    unfolding u using n by (simp add: content_def)
  moreover have "map page_text (content # ps) = map kept_text (page # rest)"
    using x k by (simp add: content_def)
  moreover have "md' ''error'' = md ''error''" using e e1 by simp
  moreover have "dom md' \<subseteq> insert ''company_name_guess'' (dom md)" using d d1 by blast
  ultimately show ?case by blast
qed

lemma parse_pages_fails:
  assumes "\<not> list_all yields_text raw"
  shows "\<exists>e. parse_pages i raw acc md = Inl (Raised e)"
  using assms
proof (induction raw arbitrary: i acc md)
  case Nil
  then show ?case by simp
next
  case (Cons page rest)
  show ?case
  proof (cases "extract_text page")
    case (Inl e)
    then show ?thesis by simp
  next
    case (Inr t)
    then have "yields_text page" by (simp add: yields_text_def)
    with Cons.prems have "\<not> list_all yields_text rest" by simp
    from Cons.IH [OF this] show ?thesis by (simp add: Inr Let_def)
  qed
qed

text \<open>
  A title that PyPDF2 hands back as \<^verbatim>\<open>bytes\<close> goes through ingestion into the deck, and
  company-name resolution raises on that deck.
\<close>

lemma bytes_title_survives_parse:
  "(case parse bytes_title_fs ''decks/acme.pdf'' of
      Inl e \<Rightarrow> False
    | Inr deck \<Rightarrow>
        metadata deck ''title'' = Some (Bytes ''Acme Robotics'')
        \<and> extract_company_name None deck = Inl TypeError)"
  by code_simp

text \<open>
  C9 (amended). When pdfplumber cannot open the file, ingestion fails with the exception
  that pdfplumber raised (there is no \<open>UnreadableDocument\<close> error). When reading the
  metadata alone fails and every page yields its text, ingestion returns a deck whose
  metadata carries the message of the failure under \<open>error\<close> (and nothing else but the
  largest-text guess), with every page of the file, numbered from 1, and its cleaned
  text. When a page fails to yield its text, ingestion fails with that exception.
\<close>

theorem parse_keeps_pages_when_metadata_fails:
  "(\<forall>e. plumber (fs pdf_path) = Inl e \<longrightarrow> parse fs pdf_path = Inl (Raised e))
   \<and> (\<forall>msg raw. reader (fs pdf_path) = Inl msg \<and> plumber (fs pdf_path) = Inr raw
          \<and> list_all yields_text raw \<longrightarrow>
        (\<exists>deck. parse fs pdf_path = Inr deck
           \<and> metadata deck ''error'' = Some (Text msg)
           \<and> dom (metadata deck) \<subseteq> {''error'', ''company_name_guess''}
           \<and> total_pages deck = length raw
           \<and> map page_number (pages deck) = [1 ..< length raw + 1]
           \<and> map page_text (pages deck) = map kept_text raw))
   \<and> (\<forall>raw. plumber (fs pdf_path) = Inr raw \<and> \<not> list_all yields_text raw \<longrightarrow>
        (\<exists>e. parse fs pdf_path = Inl (Raised e)))"
proof (intro conjI allI impI)
  fix e
  assume "plumber (fs pdf_path) = Inl e"
  then show "parse fs pdf_path = Inl (Raised e)" by (simp add: parse_def)
next
  fix msg raw
  assume a: "reader (fs pdf_path) = Inl msg \<and> plumber (fs pdf_path) = Inr raw
          \<and> list_all yields_text raw"
  let ?md = "[''error'' \<mapsto> Text msg]"
  have m: "read_metadata (Inl msg) = ?md" by (simp add: read_metadata_def)
  from a parse_pages_ok [of raw 0 "[]" ?md]
  obtain ps md' where r: "parse_pages 0 raw [] ?md = Inr (ps, md')"
    and l: "length ps = length raw"
    and n: "map page_number ps = [1 ..< length raw + 1]"
    and x: "map page_text ps = map kept_text raw"
    and e: "md' ''error'' = Some (Text msg)"
    and d: "dom md' \<subseteq> {''error'', ''company_name_guess''}"
    by auto
  let ?deck = "\<lparr>filename = last (split_on CHR ''/'' pdf_path), total_pages = length ps,
                 pages = ps, metadata = md',
                 full_text = join ''\<newline>\<newline>'' (map page_text ps)\<rparr>"
  from a have "parse fs pdf_path = Inr ?deck" by (simp add: parse_def Let_def m r)
  with l n x e d show "\<exists>deck. parse fs pdf_path = Inr deck
           \<and> metadata deck ''error'' = Some (Text msg)
           \<and> dom (metadata deck) \<subseteq> {''error'', ''company_name_guess''}
           \<and> total_pages deck = length raw
           \<and> map page_number (pages deck) = [1 ..< length raw + 1]
           \<and> map page_text (pages deck) = map kept_text raw"
    by simp
next
  fix raw
  assume a: "plumber (fs pdf_path) = Inr raw \<and> \<not> list_all yields_text raw"
  then obtain e where "parse_pages 0 raw [] (read_metadata (reader (fs pdf_path))) = Inl (Raised e)"
    using parse_pages_fails by blast
  with a show "\<exists>e. parse fs pdf_path = Inl (Raised e)" by (simp add: parse_def Let_def)
qed

lemma damaged_pages:
  "list_all yields_text [cover_page, team_page]"
  "map kept_text [cover_page, team_page] = [''Acme Robotics\<newline>Seed round'', []]"
  by code_simp+

theorem parse_keeps_pages_when_metadata_fails_witness:
  "plumber (missing_fs ''decks/acme.pdf'') = Inl ''No such file or directory''
   \<and> parse missing_fs ''decks/acme.pdf'' = Inl (Raised ''No such file or directory'')
   \<and> reader (damaged_fs ''decks/acme.pdf'') = Inl ''EOF marker not found''
   \<and> plumber (damaged_fs ''decks/acme.pdf'') = Inr [cover_page, team_page]
   \<and> (\<exists>deck. parse damaged_fs ''decks/acme.pdf'' = Inr deck
         \<and> metadata deck ''error'' = Some (Text ''EOF marker not found'')
         \<and> total_pages deck = 2
         \<and> map page_number (pages deck) = [1, 2]
         \<and> map page_text (pages deck) = [''Acme Robotics\<newline>Seed round'', []])"
proof -
  have p: "plumber (missing_fs ''decks/acme.pdf'') = Inl ''No such file or directory''"
    by (simp add: missing_fs_def)
  have r: "reader (damaged_fs ''decks/acme.pdf'') = Inl ''EOF marker not found''"
    and q: "plumber (damaged_fs ''decks/acme.pdf'') = Inr [cover_page, team_page]"
    by (simp_all add: damaged_fs_def)
  have u: "[1 ..< length [cover_page, team_page] + 1] = [1, 2]" by (simp add: upt_conv_Cons)
  from parse_keeps_pages_when_metadata_fails [where fs = missing_fs and pdf_path = "''decks/acme.pdf''"] p
  have a: "parse missing_fs ''decks/acme.pdf'' = Inl (Raised ''No such file or directory'')"
    by blast
  from parse_keeps_pages_when_metadata_fails [where fs = damaged_fs and pdf_path = "''decks/acme.pdf''"]
    r q damaged_pages(1)
  have "\<exists>deck. parse damaged_fs ''decks/acme.pdf'' = Inr deck
           \<and> metadata deck ''error'' = Some (Text ''EOF marker not found'')
           \<and> dom (metadata deck) \<subseteq> {''error'', ''company_name_guess''}
           \<and> total_pages deck = length [cover_page, team_page]
           \<and> map page_number (pages deck) = [1 ..< length [cover_page, team_page] + 1]
           \<and> map page_text (pages deck) = map kept_text [cover_page, team_page]"
    by blast
  then have b: "\<exists>deck. parse damaged_fs ''decks/acme.pdf'' = Inr deck
         \<and> metadata deck ''error'' = Some (Text ''EOF marker not found'')
         \<and> total_pages deck = 2
         \<and> map page_number (pages deck) = [1, 2]
         \<and> map page_text (pages deck) = [''Acme Robotics\<newline>Seed round'', []]"
    unfolding u damaged_pages(2) by auto
  from p a r q b show ?thesis by blast
qed

text \<open>
  C9 as stated fails: for a file that cannot be opened, ingestion lets the exception of
  pdfplumber through; the failure is not an \<open>UnreadableDocument\<close> error.
\<close>

theorem open_failure_is_library_error:
  "plumber (missing_fs ''decks/acme.pdf'') = Inl ''No such file or directory''
   \<and> parse missing_fs ''decks/acme.pdf'' = Inl (Raised ''No such file or directory'')
   \<and> parse missing_fs ''decks/acme.pdf'' \<noteq> Inl UnreadableDocument"
  by (simp add: parse_def missing_fs_def)

section \<open>Properties of structured completion\<close>

lemma split_on_nonempty [simp]: "split_on sep s \<noteq> []"
  by (induction s) (auto split: list.splits)

lemma split_on_plain: "sep \<notin> set a \<Longrightarrow> split_on sep a = [a]"
  by (induction a) auto

lemma split_on_append: "split_on sep (a @ sep # b) = split_on sep a @ split_on sep b"
proof (induction a)
  case Nil
  then show ?case by simp
next
  case (Cons c a)
  then show ?case by (cases "split_on sep a") (auto split: list.splits)
qed

lemma join_cons: "ys \<noteq> [] \<Longrightarrow> join sep (x # ys) = x @ sep @ join sep ys"
  by (cases ys) auto

lemma join_split_on: "join [sep] (split_on sep s) = s"
proof (induction s)
  case Nil
  then show ?case by simp
next
  case (Cons c s)
  show ?case
  proof (cases "c = sep")
    case True
    then show ?thesis using Cons by (simp add: join_cons)
  next
    case False
    obtain l ls where sp: "split_on sep s = l # ls"
      using split_on_nonempty [of sep s] by (cases "split_on sep s") auto
    from Cons have "join [sep] (l # ls) = s" by (simp add: sp)
    then show ?thesis using False by (cases ls) (auto simp: sp)
  qed
qed

lemma startswith_append: "startswith a p \<Longrightarrow> startswith (a @ b) p"
  unfolding startswith_def by (metis append_eq_conv_conj append_assoc)

text \<open>
  A text that begins with a fence line loses that line, and its last line too when that
  begins with a fence.
\<close>

lemma strip_fence_closed:
  assumes "startswith fl ''```''" "CHR ''\<newline>'' \<notin> set fl"
    and "startswith ll ''```''" "CHR ''\<newline>'' \<notin> set ll"
  shows "strip_fence (fl @ ''\<newline>'' @ body @ ''\<newline>'' @ ll) = body"
proof -
  let ?nl = "CHR ''\<newline>''"
  let ?x = "fl @ ''\<newline>'' @ body @ ''\<newline>'' @ ll"
  have x: "?x = fl @ ?nl # (body @ ?nl # ll)" by simp
  have head: "split_on ?nl fl = [fl]" using assms(2) by (rule split_on_plain)
  have tail: "split_on ?nl ll = [ll]" using assms(4) by (rule split_on_plain)
  have lines: "split_on ?nl ?x = fl # split_on ?nl body @ [ll]"
    unfolding x split_on_append head tail by simp
  have st: "startswith ?x ''```''" using assms(1) by (rule startswith_append)
  have "strip_fence ?x = join ''\<newline>'' (split_on ?nl body)"
    unfolding strip_fence_def Let_def lines using st assms(3)
    by (simp del: append.simps)
  then show ?thesis using join_split_on [of ?nl body] by simp
qed

lemma strip_fence_open:
  assumes "startswith fl ''```''" "CHR ''\<newline>'' \<notin> set fl"
    and "\<not> startswith (last (split_on CHR ''\<newline>'' body)) ''```''"
  shows "strip_fence (fl @ ''\<newline>'' @ body) = body"
proof -
  let ?nl = "CHR ''\<newline>''"
  let ?x = "fl @ ''\<newline>'' @ body"
  have x: "?x = fl @ ?nl # body" by simp
  have head: "split_on ?nl fl = [fl]" using assms(2) by (rule split_on_plain)
  have lines: "split_on ?nl ?x = fl # split_on ?nl body"
    unfolding x split_on_append head by simp
  have st: "startswith ?x ''```''" using assms(1) by (rule startswith_append)
  have "strip_fence ?x = join ''\<newline>'' (split_on ?nl body)"
    unfolding strip_fence_def Let_def lines using st assms(3)
    by (simp del: append.simps)
  then show ?thesis using join_split_on [of ?nl body] by simp
qed

lemma takeWhile_upto: "c \<notin> set p \<Longrightarrow> takeWhile (\<lambda>x. x \<noteq> c) (p @ c # r) = p"
  by (induction p) auto

lemma find_char_first: "c \<notin> set p \<Longrightarrow> find_char c (p @ c # r) = int (length p)"
  by (simp add: find_char_def takeWhile_upto)

lemma rfind_char_last:
  "c \<notin> set q \<Longrightarrow> rfind_char c (r @ c # q) = int (length r)"
proof -
  assume n: "c \<notin> set q"
  have "takeWhile (\<lambda>x. x \<noteq> c) (rev q @ c # rev r) = rev q"
    using n takeWhile_upto [of c "rev q" "rev r"] by simp
  then show ?thesis by (simp add: rfind_char_def)
qed

lemma find_json_object:
  assumes "CHR ''{'' \<notin> set p" "CHR ''}'' \<notin> set q"
  shows "find_json (p @ (CHR ''{'' # m @ ''}'') @ q) = CHR ''{'' # m @ ''}''"
proof -
  let ?y = "p @ (CHR ''{'' # m @ ''}'') @ q"
  have f: "find_char CHR ''{'' ?y = int (length p)"
    using find_char_first [OF assms(1), of "m @ ''}'' @ q"] by simp
  have "?y = (p @ CHR ''{'' # m) @ CHR ''}'' # q" by simp
  then have r: "rfind_char CHR ''}'' ?y = int (length p) + 1 + int (length m)"
    using rfind_char_last [OF assms(2), of "p @ CHR ''{'' # m"] by simp
  show ?thesis
    unfolding find_json_def Let_def f r by (simp add: slice_def nat_add_distrib)
qed

text \<open>
  C3 (amended). Let the answer of the model, white space around it taken off, hold one
  JSON object \<open>j\<close> (a text from \<open>{\<close> to \<open>}\<close> that \<^verbatim>\<open>json.loads\<close> parses to \<open>v\<close>) after prose
  \<open>p\<close> without \<open>{\<close> and before prose \<open>q\<close> without \<open>}\<close>, in one of three shapes: the answer
  does not begin with a fence and is \<open>p j q\<close>; or it begins with a fence line (three
  backticks and anything up to the end of the line) and ends with a line that begins
  with a fence, with \<open>p j q\<close> on the lines between; or it begins with a fence line and
  \<open>p j q\<close> is all the rest, the last line not beginning with a fence. Then
  \<open>complete_with_json\<close> returns \<open>v\<close>.
\<close>

theorem complete_with_json_recovers_object:
  assumes "llm (json_prompt prompt) system_prompt 2000 = Inr (Some response)"
    and "j = CHR ''{'' # m @ ''}''"
    and "loads j = Some v"
    and "CHR ''{'' \<notin> set p" "CHR ''}'' \<notin> set q"
    and "(\<not> startswith (strip response) ''```'' \<and> strip response = p @ j @ q)
         \<or> (\<exists>fl. startswith fl ''```'' \<and> CHR ''\<newline>'' \<notin> set fl
              \<and> ((\<exists>ll. startswith ll ''```'' \<and> CHR ''\<newline>'' \<notin> set ll
                     \<and> strip response = fl @ ''\<newline>'' @ (p @ j @ q) @ ''\<newline>'' @ ll)
                  \<or> (\<not> startswith (last (split_on CHR ''\<newline>'' (p @ j @ q))) ''```''
                     \<and> strip response = fl @ ''\<newline>'' @ (p @ j @ q))))"
  shows "complete_with_json loads llm prompt system_prompt = Inr v"
proof -
  have inner: "find_json (p @ j @ q) = j"
    unfolding assms(2) using assms(4,5) by (rule find_json_object)
  have "strip_fence (strip response) = p @ j @ q"
    using assms(6)
  proof (elim disjE exE conjE)
    assume "\<not> startswith (strip response) ''```''" and "strip response = p @ j @ q"
    then show ?thesis by (simp add: strip_fence_def)
  next
    fix fl ll
    assume "startswith fl ''```''" "CHR ''\<newline>'' \<notin> set fl"
      "startswith ll ''```''" "CHR ''\<newline>'' \<notin> set ll"
      and r: "strip response = fl @ ''\<newline>'' @ (p @ j @ q) @ ''\<newline>'' @ ll"
    then show ?thesis unfolding r by (intro strip_fence_closed)
  next
    fix fl
    assume "startswith fl ''```''" "CHR ''\<newline>'' \<notin> set fl"
      "\<not> startswith (last (split_on CHR ''\<newline>'' (p @ j @ q))) ''```''"
      and r: "strip response = fl @ ''\<newline>'' @ (p @ j @ q)"
    then show ?thesis unfolding r by (intro strip_fence_open)
  qed
  then have "find_json (strip_fence (strip response)) = j" using inner by simp
  then show ?thesis
    unfolding complete_with_json_def Let_def by (simp add: assms(1,3))
qed

lemma stub_object: "''{\"a\":1}'' = CHR ''{'' # ''\"a\":1'' @ ''}''"
  by simp

lemma stub_parses: "stub_loads ''{\"a\":1}'' = Some [(''a'', 1)]"
  by (simp add: stub_loads_def)

lemma replying: "replying_llm r (json_prompt prompt) None 2000 = Inr (Some r)"
  by (simp add: replying_llm_def)

theorem complete_with_json_recovers_object_witness:
  "complete_with_json stub_loads (replying_llm ''```json\<newline>{\"a\":1}\<newline>```'') ''What is a?'' None
     = Inr [(''a'', 1)]
   \<and> complete_with_json stub_loads (replying_llm ''Here is the JSON you asked for: {\"a\":1}'')
       ''What is a?'' None = Inr [(''a'', 1)]
   \<and> complete_with_json stub_loads
       (replying_llm ''```json\<newline>Result: {\"a\":1}\<newline>```\<newline>Hope this helps.'')
       ''What is a?'' None = Inr [(''a'', 1)]
   \<and> complete_with_json stub_loads (replying_llm ''```\<newline>{\"a\":1}'')
       ''What is a?'' None = Inr [(''a'', 1)]"
proof -
  let ?j = "''{\"a\":1}''"
  let ?nl = "CHR ''\<newline>''"
  have s1: "strip ''```json\<newline>{\"a\":1}\<newline>```''
              = ''```json'' @ ''\<newline>'' @ ([] @ ?j @ []) @ ''\<newline>'' @ ''```''"
    by code_simp
  have "startswith ''```json'' ''```'' \<and> ?nl \<notin> set ''```json''
        \<and> startswith ''```'' ''```'' \<and> ?nl \<notin> set ''```''"
    by code_simp
  with s1 have h1: "\<exists>fl. startswith fl ''```'' \<and> ?nl \<notin> set fl
      \<and> ((\<exists>ll. startswith ll ''```'' \<and> ?nl \<notin> set ll
             \<and> strip ''```json\<newline>{\"a\":1}\<newline>```'' = fl @ ''\<newline>'' @ ([] @ ?j @ []) @ ''\<newline>'' @ ll)
          \<or> (\<not> startswith (last (split_on ?nl ([] @ ?j @ []))) ''```''
             \<and> strip ''```json\<newline>{\"a\":1}\<newline>```'' = fl @ ''\<newline>'' @ ([] @ ?j @ [])))"
    by blast
  have a: "complete_with_json stub_loads (replying_llm ''```json\<newline>{\"a\":1}\<newline>```'')
       ''What is a?'' None = Inr [(''a'', 1)]"
    using complete_with_json_recovers_object [where llm = "replying_llm ''```json\<newline>{\"a\":1}\<newline>```''"
        and prompt = "''What is a?''" and loads = stub_loads and p = "[]" and q = "[]",
        OF replying stub_object stub_parses] h1
    by simp
  have s2: "strip ''Here is the JSON you asked for: {\"a\":1}''
              = ''Here is the JSON you asked for: '' @ ?j @ []"
    by code_simp
  have n2: "\<not> startswith (strip ''Here is the JSON you asked for: {\"a\":1}'') ''```''"
    by code_simp
  have c2: "CHR ''{'' \<notin> set ''Here is the JSON you asked for: ''" by code_simp
  have b: "complete_with_json stub_loads (replying_llm ''Here is the JSON you asked for: {\"a\":1}'')
       ''What is a?'' None = Inr [(''a'', 1)]"
    using complete_with_json_recovers_object [where llm = "replying_llm ''Here is the JSON you asked for: {\"a\":1}''"
        and prompt = "''What is a?''" and loads = stub_loads
        and p = "''Here is the JSON you asked for: ''" and q = "[]",
        OF replying stub_object stub_parses c2] s2 n2
    by simp
  have s3: "strip ''```json\<newline>Result: {\"a\":1}\<newline>```\<newline>Hope this helps.''
              = ''```json'' @ ''\<newline>'' @ (''Result: '' @ ?j @ ''\<newline>```\<newline>Hope this helps.'')"
    by code_simp
  have f3: "startswith ''```json'' ''```'' \<and> ?nl \<notin> set ''```json''
        \<and> \<not> startswith (last (split_on ?nl
               (''Result: '' @ ?j @ ''\<newline>```\<newline>Hope this helps.''))) ''```''"
    by code_simp
  have c3: "CHR ''{'' \<notin> set ''Result: ''" "CHR ''}'' \<notin> set ''\<newline>```\<newline>Hope this helps.''"
    by code_simp+
  from s3 f3 have h3: "\<exists>fl. startswith fl ''```'' \<and> ?nl \<notin> set fl
      \<and> ((\<exists>ll. startswith ll ''```'' \<and> ?nl \<notin> set ll
             \<and> strip ''```json\<newline>Result: {\"a\":1}\<newline>```\<newline>Hope this helps.''
                 = fl @ ''\<newline>'' @ (''Result: '' @ ?j @ ''\<newline>```\<newline>Hope this helps.'') @ ''\<newline>'' @ ll)
          \<or> (\<not> startswith (last (split_on ?nl
                 (''Result: '' @ ?j @ ''\<newline>```\<newline>Hope this helps.''))) ''```''
             \<and> strip ''```json\<newline>Result: {\"a\":1}\<newline>```\<newline>Hope this helps.''
                 = fl @ ''\<newline>'' @ (''Result: '' @ ?j @ ''\<newline>```\<newline>Hope this helps.'')))"
    by blast
  have c: "complete_with_json stub_loads
       (replying_llm ''```json\<newline>Result: {\"a\":1}\<newline>```\<newline>Hope this helps.'')
       ''What is a?'' None = Inr [(''a'', 1)]"
    using complete_with_json_recovers_object [where llm = "replying_llm ''```json\<newline>Result: {\"a\":1}\<newline>```\<newline>Hope this helps.''"
        and prompt = "''What is a?''" and loads = stub_loads
        and p = "''Result: ''" and q = "''\<newline>```\<newline>Hope this helps.''",
        OF replying stub_object stub_parses c3] h3
    by simp
  have s4: "strip ''```\<newline>{\"a\":1}'' = ''```'' @ ''\<newline>'' @ ([] @ ?j @ [])"
    by code_simp
  have f4: "startswith ''```'' ''```'' \<and> ?nl \<notin> set ''```''
        \<and> \<not> startswith (last (split_on ?nl ([] @ ?j @ []))) ''```''"
    by code_simp
  from s4 f4 have h4: "\<exists>fl. startswith fl ''```'' \<and> ?nl \<notin> set fl
      \<and> ((\<exists>ll. startswith ll ''```'' \<and> ?nl \<notin> set ll
             \<and> strip ''```\<newline>{\"a\":1}'' = fl @ ''\<newline>'' @ ([] @ ?j @ []) @ ''\<newline>'' @ ll)
          \<or> (\<not> startswith (last (split_on ?nl ([] @ ?j @ []))) ''```''
             \<and> strip ''```\<newline>{\"a\":1}'' = fl @ ''\<newline>'' @ ([] @ ?j @ [])))"
    by blast
  have d: "complete_with_json stub_loads (replying_llm ''```\<newline>{\"a\":1}'')
       ''What is a?'' None = Inr [(''a'', 1)]"
    using complete_with_json_recovers_object [where llm = "replying_llm ''```\<newline>{\"a\":1}''"
        and prompt = "''What is a?''" and loads = stub_loads and p = "[]" and q = "[]",
        OF replying stub_object stub_parses] h4
    by simp
  from a b c d show ?thesis by blast
qed

text \<open>
  C3 as stated fails: a fence on the line of the object is a surrounding code fence, and
  the object stands between the first \<open>{\<close> and the last \<open>}\<close> of what it surrounds, yet the
  cleaning drops the only line of such an answer and \<^verbatim>\<open>json.loads\<close> is given the empty text.
\<close>

theorem one_line_fence_not_recovered:
  "''```{\"a\":1}```'' = ''```'' @ ''{\"a\":1}'' @ ''```''
   \<and> find_json ''{\"a\":1}'' = ''{\"a\":1}''
   \<and> stub_loads ''{\"a\":1}'' = Some [(''a'', 1)]
   \<and> complete_with_json stub_loads (replying_llm ''```{\"a\":1}```'') ''What is a?'' None
       = Inl (JSONDecodeError [])"
proof -
  have c: "find_json (strip_fence (strip ''```{\"a\":1}```'')) = []"
    by code_simp
  have f: "find_json ''{\"a\":1}'' = ''{\"a\":1}''"
    by code_simp
  show ?thesis
    by (simp add: complete_with_json_def Let_def replying_llm_def stub_loads_def c f)
qed

text \<open>
  C5 (amended). When the cleaned response of the model does not parse, the call fails
  with the error of \<^verbatim>\<open>json.loads\<close> itself, which carries the cleaned text whole; it is
  never a \<open>MalformedStructuredOutput\<close> error.
\<close>

theorem complete_with_json_propagates_decoder_error:
  assumes "llm (json_prompt prompt) system_prompt 2000 = Inr (Some response)"
    and "loads (find_json (strip_fence (strip response))) = None"
  shows "complete_with_json loads llm prompt system_prompt
           = Inl (JSONDecodeError (find_json (strip_fence (strip response))))
         \<and> (\<forall>t. complete_with_json loads llm prompt system_prompt
                  \<noteq> Inl (MalformedStructuredOutput t))"
  unfolding complete_with_json_def Let_def by (simp add: assms)

theorem complete_with_json_propagates_decoder_error_witness:
  "complete_with_json stub_loads (replying_llm ''```json\<newline>{oops\<newline>```'') ''What is a?'' None
     = Inl (JSONDecodeError ''{oops'')"
proof -
  have f: "replying_llm ''```json\<newline>{oops\<newline>```'' (json_prompt ''What is a?'') None 2000
             = Inr (Some ''```json\<newline>{oops\<newline>```'')"
    by (simp add: replying_llm_def)
  have c: "find_json (strip_fence (strip ''```json\<newline>{oops\<newline>```'')) = ''{oops''"
    by code_simp
  have l: "stub_loads (find_json (strip_fence (strip ''```json\<newline>{oops\<newline>```''))) = None"
    unfolding c by (simp add: stub_loads_def)
  from complete_with_json_propagates_decoder_error
    [where llm = "replying_llm ''```json\<newline>{oops\<newline>```''" and prompt = "''What is a?''"
       and loads = stub_loads, OF f l]
  show ?thesis unfolding c by blast
qed

text \<open>
  C5 as stated fails: an answer that is no JSON at all ends in the bare error of the
  parser, not in a \<open>MalformedStructuredOutput\<close> error.
\<close>

theorem bare_decoder_error_surfaces:
  "stub_loads (find_json (strip_fence (strip ''Sorry, I cannot help with that.''))) = None
   \<and> complete_with_json stub_loads (replying_llm ''Sorry, I cannot help with that.'')
        ''What is a?'' None = Inl (JSONDecodeError ''Sorry, I cannot help with that.'')
   \<and> complete_with_json stub_loads (replying_llm ''Sorry, I cannot help with that.'')
        ''What is a?'' None \<noteq> Inl (MalformedStructuredOutput ''Sorry, I cannot help with that.'')"
proof -
  have c: "find_json (strip_fence (strip ''Sorry, I cannot help with that.''))
             = ''Sorry, I cannot help with that.''"
    by code_simp
  show ?thesis
    by (simp add: complete_with_json_def Let_def replying_llm_def stub_loads_def c)
qed

section \<open>Properties of the web search\<close>

lemma tavily_times_append [simp]: "tavily_times (xs @ ys) = tavily_times xs @ tavily_times ys"
  by (induction xs rule: tavily_times.induct) auto

lemma ddg_times_append [simp]: "ddg_times (xs @ ys) = ddg_times xs @ ddg_times ys"
  by (induction xs rule: ddg_times.induct) auto

lemma sleep_simps [simp]:
  "now (sleep d w) = now w + d"
  "last_ddg_search_time (sleep d w) = last_ddg_search_time w"
  "calls (sleep d w) = calls w"
  "trace (sleep d w) = trace w @ [Slept d]"
  by (simp_all add: sleep_def)

text \<open>One attempt at the fallback provider leaves the primary provider alone.\<close>

lemma ddg_try_tavily:
  assumes "ddg_try e query attempt cw = (ans, c, w)"
  shows "use_tavily c = use_tavily (fst cw)
         \<and> tavily_times (trace w) = tavily_times (trace (snd cw))"
  using assms
  unfolding ddg_try_def get_ddg_client_def call_provider_def Let_def
  by (auto split: if_splits option.splits sum.splits prod.splits)

text \<open>The loop of the fallback search, one attempt at a time.\<close>

lemma ddg_loop_done:
  "attempt < 0 \<or> attempt > retry_count \<Longrightarrow>
   search_duckduckgo_from e query retry_count attempt cw = ([], cw)"
  by (subst search_duckduckgo_from.simps) simp

lemma ddg_loop_success:
  assumes "0 \<le> attempt" "attempt \<le> retry_count"
    and "ddg_try e query attempt cw = (Inr results, c, w)"
  shows "search_duckduckgo_from e query retry_count attempt cw
           = (results, c, sleep 500 (w\<lparr>last_ddg_search_time := now w\<rparr>))"
  using assms by (subst search_duckduckgo_from.simps) (simp add: Let_def)

lemma ddg_loop_rate_limit:
  assumes "0 \<le> attempt" "attempt \<le> retry_count"
    and "ddg_try e query attempt cw = (Inl msg, c, w)"
    and "is_rate_limit (lower_str msg)" "attempt < retry_count"
  shows "search_duckduckgo_from e query retry_count attempt cw
           = search_duckduckgo_from e query retry_count (attempt + 1)
               (c\<lparr>ddg := False\<rparr>, sleep (nat ((attempt + 1) * 5 * 1000)) w)"
  using assms by (subst search_duckduckgo_from.simps) (simp add: Let_def)

lemma ddg_loop_connection:
  assumes "0 \<le> attempt" "attempt \<le> retry_count"
    and "ddg_try e query attempt cw = (Inl msg, c, w)"
    and "\<not> (is_rate_limit (lower_str msg) \<and> attempt < retry_count)"
    and "is_connection_issue (lower_str msg)"
  shows "search_duckduckgo_from e query retry_count attempt cw
           = search_duckduckgo_from e query retry_count (attempt + 1)
               (c\<lparr>ddg := False\<rparr>, sleep (nat ((attempt + 1) * 3 * 1000)) w)"
  using assms by (subst search_duckduckgo_from.simps) (auto simp add: Let_def)

lemma ddg_loop_other:
  assumes "0 \<le> attempt" "attempt \<le> retry_count"
    and "ddg_try e query attempt cw = (Inl msg, c, w)"
    and "\<not> (is_rate_limit (lower_str msg) \<and> attempt < retry_count)"
    and "\<not> is_connection_issue (lower_str msg)"
  shows "search_duckduckgo_from e query retry_count attempt cw = ([], c, w)"
  using assms by (subst search_duckduckgo_from.simps) (auto simp add: Let_def)

lemma search_duckduckgo_from_tavily:
  "use_tavily (fst (snd (search_duckduckgo_from e query retry_count attempt cw)))
     = use_tavily (fst cw)
   \<and> tavily_times (trace (snd (snd (search_duckduckgo_from e query retry_count attempt cw))))
     = tavily_times (trace (snd cw))"
proof (induction "nat (retry_count + 1 - attempt)" arbitrary: attempt cw)
  case 0
  then have "attempt < 0 \<or> attempt > retry_count" by linarith
  then show ?case by (simp add: ddg_loop_done)
next
  case (Suc n)
  show ?case
  proof (cases "attempt < 0")
    case True
    then show ?thesis by (simp add: ddg_loop_done)
  next
    case False
    with Suc.hyps(2) have rng: "0 \<le> attempt" "attempt \<le> retry_count" by linarith+
    have next_n: "n = nat (retry_count + 1 - (attempt + 1))" using Suc.hyps(2) by linarith
    obtain ans c w where t: "ddg_try e query attempt cw = (ans, c, w)"
      by (cases "ddg_try e query attempt cw") auto
    note keep = ddg_try_tavily [OF t]
    show ?thesis
    proof (cases ans)
      case (Inr results)
      from ddg_loop_success [OF rng t [unfolded Inr]] keep show ?thesis by simp
    next
      case (Inl msg)
      consider (rate) "is_rate_limit (lower_str msg) \<and> attempt < retry_count"
        | (conn) "\<not> (is_rate_limit (lower_str msg) \<and> attempt < retry_count)"
                 "is_connection_issue (lower_str msg)"
        | (other) "\<not> (is_rate_limit (lower_str msg) \<and> attempt < retry_count)"
                  "\<not> is_connection_issue (lower_str msg)"
        by blast
      then show ?thesis
      proof cases
        case rate
        with ddg_loop_rate_limit [OF rng t [unfolded Inl]]
        have "search_duckduckgo_from e query retry_count attempt cw
           = search_duckduckgo_from e query retry_count (attempt + 1)
               (c\<lparr>ddg := False\<rparr>, sleep (nat ((attempt + 1) * 5 * 1000)) w)" by blast
        with Suc.hyps(1) [OF next_n] keep show ?thesis by simp
      next
        case conn
        with ddg_loop_connection [OF rng t [unfolded Inl]]
        have "search_duckduckgo_from e query retry_count attempt cw
           = search_duckduckgo_from e query retry_count (attempt + 1)
               (c\<lparr>ddg := False\<rparr>, sleep (nat ((attempt + 1) * 3 * 1000)) w)" by blast
        with Suc.hyps(1) [OF next_n] keep show ?thesis by simp
      next
        case other
        from ddg_loop_other [OF rng t [unfolded Inl] other] keep show ?thesis by simp
      qed
    qed
  qed
qed

lemma search_without_tavily:
  assumes "\<not> use_tavily (fst cw)"
  shows "search e query retry_count cw = search_duckduckgo e query retry_count cw
         \<and> \<not> use_tavily (fst (snd (search e query retry_count cw)))
         \<and> tavily_times (trace (snd (snd (search e query retry_count cw))))
             = tavily_times (trace (snd cw))"
  using assms search_duckduckgo_from_tavily [of e query retry_count 0 cw]
  by (simp add: search_def search_duckduckgo_def)

lemma run_searches_without_tavily:
  assumes "\<not> use_tavily (fst cw)"
  shows "run_searches e later cw = run_fallback_searches e later cw
         \<and> \<not> use_tavily (fst (run_searches e later cw))
         \<and> tavily_times (trace (snd (run_searches e later cw))) = tavily_times (trace (snd cw))"
  using assms
proof (induction later arbitrary: cw)
  case Nil
  then show ?case by simp
next
  case (Cons qr later)
  obtain query retry_count where qr: "qr = (query, retry_count)" by (cases qr)
  let ?cw' = "snd (search e query retry_count cw)"
  note s = search_without_tavily [OF Cons.prems, of e query retry_count]
  from s have n: "\<not> use_tavily (fst ?cw')" by blast
  from s have eq: "?cw' = snd (search_duckduckgo e query retry_count cw)" by simp
  from s have tr: "tavily_times (trace (snd ?cw')) = tavily_times (trace (snd cw))" by blast
  note ih = Cons.IH [OF n]
  have a: "run_searches e (qr # later) cw = run_searches e later ?cw'" by (simp add: qr)
  have b: "run_fallback_searches e (qr # later) cw = run_fallback_searches e later ?cw'"
    by (simp add: qr eq)
  from ih have i1: "run_searches e later ?cw' = run_fallback_searches e later ?cw'"
    and i2: "\<not> use_tavily (fst (run_searches e later ?cw'))"
    and i3: "tavily_times (trace (snd (run_searches e later ?cw')))
               = tavily_times (trace (snd ?cw'))"
    by blast+
  from i3 tr have i4: "tavily_times (trace (snd (run_searches e later ?cw')))
               = tavily_times (trace (snd cw))" by (rule trans)
  show ?case unfolding a b using i1 i2 i4 by (intro conjI)
qed

lemma search_tavily_failure_disables:
  assumes "use_tavily (fst cw)" "key_set e" "fst (search_tavily e query cw) = Inl msg"
  shows "\<not> use_tavily (fst (snd (search e query retry_count cw)))"
proof -
  obtain c w where t: "search_tavily e query cw = (Inl msg, c, w)"
    using assms(3) by (cases "search_tavily e query cw") auto
  have "search e query retry_count cw
          = search_duckduckgo e query retry_count (c\<lparr>use_tavily := False\<rparr>, w)"
    using assms(1,2) t by (simp add: search_def)
  then show ?thesis
    using search_duckduckgo_from_tavily [of e query retry_count 0 "(c\<lparr>use_tavily := False\<rparr>, w)"]
    by (simp add: search_duckduckgo_def)
qed

text \<open>
  C4 (amended). Once a search of a client has seen the primary provider raise an error,
  whatever the error, that client has the primary provider switched off, and every later
  search of that client is a fallback search: the session of that client calls the
  primary provider no more. The switch is an attribute of the client, not of the process.
\<close>

theorem primary_failure_is_sticky:
  assumes "use_tavily (fst cw)" "key_set e" "fst (search_tavily e query cw) = Inl msg"
  shows "let cw' = snd (search e query retry_count cw)
         in \<not> use_tavily (fst cw')
            \<and> (\<forall>later. run_searches e later cw' = run_fallback_searches e later cw'
                  \<and> \<not> use_tavily (fst (run_searches e later cw'))
                  \<and> tavily_times (trace (snd (run_searches e later cw')))
                      = tavily_times (trace (snd cw')))"
  using search_tavily_failure_disables [OF assms] run_searches_without_tavily
  unfolding Let_def by blast

lemma flaky_start:
  "init_client flaky_env 5
     = \<lparr>max_results = 5, use_tavily = True, tavily_client = True, ddg = False\<rparr>"
  by code_simp

lemma flaky_first_call:
  "search_tavily flaky_env ''q1''
     (\<lparr>max_results = 5, use_tavily = True, tavily_client = True, ddg = False\<rparr>, start_world)
   = (Inl ''HTTP 500 server error'',
      \<lparr>max_results = 5, use_tavily = True, tavily_client = True, ddg = False\<rparr>,
      \<lparr>now = 10200, last_ddg_search_time = 0, calls = 1, trace = [TavilySearch 10000]\<rparr>)"
  by code_simp

theorem primary_failure_is_sticky_witness:
  "use_tavily (fst (init_client flaky_env 5, start_world))
   \<and> key_set flaky_env
   \<and> fst (search_tavily flaky_env ''q1'' (init_client flaky_env 5, start_world))
       = Inl ''HTTP 500 server error''
   \<and> tavily_times (trace (snd (run_searches flaky_env [(''q1'', 2), (''q2'', 2), (''q3'', 2)]
         (init_client flaky_env 5, start_world)))) = [10000]"
proof -
  let ?cw = "(init_client flaky_env 5, start_world)"
  let ?cw' = "snd (search flaky_env ''q1'' 2 ?cw)"
  have u: "use_tavily (fst ?cw)" by (simp add: flaky_start)
  have k: "key_set flaky_env" by code_simp
  have f: "fst (search_tavily flaky_env ''q1'' ?cw) = Inl ''HTTP 500 server error''"
    by (simp add: flaky_start flaky_first_call)
  have "search flaky_env ''q1'' 2 ?cw
          = search_duckduckgo flaky_env ''q1'' 2
              (\<lparr>max_results = 5, use_tavily = False, tavily_client = True, ddg = False\<rparr>,
               \<lparr>now = 10200, last_ddg_search_time = 0, calls = 1, trace = [TavilySearch 10000]\<rparr>)"
    using k by (simp add: search_def flaky_start flaky_first_call)
  then have first: "tavily_times (trace (snd ?cw')) = [10000]"
    using search_duckduckgo_from_tavily [of flaky_env "''q1''" 2 0
        "(\<lparr>max_results = 5, use_tavily = False, tavily_client = True, ddg = False\<rparr>,
          \<lparr>now = 10200, last_ddg_search_time = 0, calls = 1, trace = [TavilySearch 10000]\<rparr>)"]
    by (simp add: search_duckduckgo_def)
  from primary_failure_is_sticky [OF u k f, of 2]
  have "tavily_times (trace (snd (run_searches flaky_env [(''q2'', 2), (''q3'', 2)] ?cw')))
          = tavily_times (trace (snd ?cw'))"
    unfolding Let_def by blast
  then have t: "tavily_times (trace (snd (run_searches flaky_env
       [(''q1'', 2), (''q2'', 2), (''q3'', 2)] ?cw))) = [10000]"
    using first by simp
  from u k f t show ?thesis by blast
qed

lemma flaky_fallback_call:
  "ddg_try flaky_env ''q1'' 0
     (\<lparr>max_results = 5, use_tavily = False, tavily_client = True, ddg = False\<rparr>,
      \<lparr>now = 10200, last_ddg_search_time = 0, calls = 1, trace = [TavilySearch 10000]\<rparr>)
   = (Inr [''q1''],
      \<lparr>max_results = 5, use_tavily = False, tavily_client = True, ddg = True\<rparr>,
      \<lparr>now = 10500, last_ddg_search_time = 0, calls = 2,
        trace = [TavilySearch 10000, DdgClientCreated, DdgText 10200]\<rparr>)"
  by (simp add: ddg_try_def get_ddg_client_def call_provider_def flaky_env_def
        sleep_def min_ddg_delay_def Let_def)

lemma flaky_first_search:
  "search flaky_env ''q1'' 2 (init_client flaky_env 5, start_world)
   = ([''q1''],
      \<lparr>max_results = 5, use_tavily = False, tavily_client = True, ddg = True\<rparr>,
      \<lparr>now = 11000, last_ddg_search_time = 10500, calls = 2,
        trace = [TavilySearch 10000, DdgClientCreated, DdgText 10200, Slept 500]\<rparr>)"
proof -
  have k: "key_set flaky_env" by code_simp
  have "search flaky_env ''q1'' 2 (init_client flaky_env 5, start_world)
          = search_duckduckgo flaky_env ''q1'' 2
              (\<lparr>max_results = 5, use_tavily = False, tavily_client = True, ddg = False\<rparr>,
               \<lparr>now = 10200, last_ddg_search_time = 0, calls = 1, trace = [TavilySearch 10000]\<rparr>)"
    using k by (simp add: search_def flaky_start flaky_first_call)
  then show ?thesis
    using ddg_loop_success [where retry_count = 2, OF _ _ flaky_fallback_call]
    by (simp add: search_duckduckgo_def sleep_def)
qed

lemma flaky_second_client:
  "search flaky_env ''q2'' 2
     (init_client flaky_env 5,
      \<lparr>now = 11000, last_ddg_search_time = 10500, calls = 2,
        trace = [TavilySearch 10000, DdgClientCreated, DdgText 10200, Slept 500]\<rparr>)
   = ([''q2''],
      \<lparr>max_results = 5, use_tavily = True, tavily_client = True, ddg = False\<rparr>,
      \<lparr>now = 11300, last_ddg_search_time = 10500, calls = 3,
        trace = [TavilySearch 10000, DdgClientCreated, DdgText 10200, Slept 500,
                 TavilySearch 11000]\<rparr>)"
proof -
  have k: "key_set flaky_env" by code_simp
  have t: "search_tavily flaky_env ''q2''
     (\<lparr>max_results = 5, use_tavily = True, tavily_client = True, ddg = False\<rparr>,
      \<lparr>now = 11000, last_ddg_search_time = 10500, calls = 2,
        trace = [TavilySearch 10000, DdgClientCreated, DdgText 10200, Slept 500]\<rparr>)
   = (Inr [''q2''],
      \<lparr>max_results = 5, use_tavily = True, tavily_client = True, ddg = False\<rparr>,
      \<lparr>now = 11300, last_ddg_search_time = 10500, calls = 3,
        trace = [TavilySearch 10000, DdgClientCreated, DdgText 10200, Slept 500,
                 TavilySearch 11000]\<rparr>)"
    by (simp add: search_tavily_def get_tavily_client_def call_provider_def flaky_env_def
          Let_def)
  show ?thesis using k by (simp add: search_def flaky_start t)
qed

text \<open>
  C4 as stated fails: the switch does not hold for the process. After the first client
  has seen the primary provider fail at 10.0 s and has gone to the fallback provider, a
  second client made in the same process calls the primary provider again, at 11.0 s.
\<close>

theorem second_client_retries_primary:
  "fst (search_tavily flaky_env ''q1'' (init_client flaky_env 5, start_world))
     = Inl ''HTTP 500 server error''
   \<and> \<not> use_tavily (fst (snd (search flaky_env ''q1'' 2 (init_client flaky_env 5, start_world))))
   \<and> tavily_times (trace (snd (snd
        (search flaky_env ''q2'' 2
           (init_client flaky_env 5,
            snd (snd (search flaky_env ''q1'' 2 (init_client flaky_env 5, start_world))))))))
     = [10000, 11000]"
proof -
  have f: "fst (search_tavily flaky_env ''q1'' (init_client flaky_env 5, start_world))
             = Inl ''HTTP 500 server error''"
    by (simp add: flaky_start flaky_first_call)
  show ?thesis
    unfolding flaky_first_search snd_conv flaky_second_client using f by simp
qed









lemma stormy_classes:
  "is_rate_limit (lower_str ''202 Ratelimit'')"
  "\<not> is_rate_limit (lower_str ''Connection reset by peer'')"
  "is_connection_issue (lower_str ''Connection reset by peer'')"
  "\<not> is_rate_limit (lower_str ''unexpected response'')"
  "\<not> is_connection_issue (lower_str ''unexpected response'')"
  by code_simp+


text \<open>
  C2. The code breaks the claim: a fallback search whose call fails with an error that
  is not transient returns at once and leaves the time of the last search as it was, so
  the next search calls the provider without waiting. Here the two calls are 100
  milliseconds apart, where the minimum delay is 2500.
\<close>

theorem fallback_calls_closer_than_min_delay:
  "ddg_times (trace (snd (run_searches hasty_env [(''q1'', 2), (''q2'', 2)]
      (init_client hasty_env 5, start_world)))) = [10000, 10100]
   \<and> min_ddg_delay = 2500"
proof -
  have i: "init_client hasty_env 5
     = \<lparr>max_results = 5, use_tavily = False, tavily_client = False, ddg = False\<rparr>"
    by code_simp
  have t1: "ddg_try hasty_env ''q1'' 0
     (\<lparr>max_results = 5, use_tavily = False, tavily_client = False, ddg = False\<rparr>, start_world)
   = (Inl ''unexpected response'',
      \<lparr>max_results = 5, use_tavily = False, tavily_client = False, ddg = True\<rparr>,
      \<lparr>now = 10100, last_ddg_search_time = 0, calls = 1,
        trace = [DdgClientCreated, DdgText 10000]\<rparr>)"
    by (simp add: ddg_try_def get_ddg_client_def call_provider_def hasty_env_def start_world_def
        sleep_def min_ddg_delay_def Let_def)
  have t2: "ddg_try hasty_env ''q2'' 0
     (\<lparr>max_results = 5, use_tavily = False, tavily_client = False, ddg = True\<rparr>,
      \<lparr>now = 10100, last_ddg_search_time = 0, calls = 1,
        trace = [DdgClientCreated, DdgText 10000]\<rparr>)
   = (Inr [''q2''],
      \<lparr>max_results = 5, use_tavily = False, tavily_client = False, ddg = True\<rparr>,
      \<lparr>now = 10200, last_ddg_search_time = 0, calls = 2,
        trace = [DdgClientCreated, DdgText 10000, DdgText 10100]\<rparr>)"
    by (simp add: ddg_try_def get_ddg_client_def call_provider_def hasty_env_def start_world_def
        sleep_def min_ddg_delay_def Let_def)
  have s1: "search hasty_env ''q1'' 2
     (\<lparr>max_results = 5, use_tavily = False, tavily_client = False, ddg = False\<rparr>, start_world)
   = ([], \<lparr>max_results = 5, use_tavily = False, tavily_client = False, ddg = True\<rparr>,
      \<lparr>now = 10100, last_ddg_search_time = 0, calls = 1,
        trace = [DdgClientCreated, DdgText 10000]\<rparr>)"
    using ddg_loop_other [where retry_count = 2, OF _ _ t1] stormy_classes
    by (simp add: search_def search_duckduckgo_def)
  have s2: "search hasty_env ''q2'' 2
     (\<lparr>max_results = 5, use_tavily = False, tavily_client = False, ddg = True\<rparr>,
      \<lparr>now = 10100, last_ddg_search_time = 0, calls = 1,
        trace = [DdgClientCreated, DdgText 10000]\<rparr>)
   = ([''q2''], \<lparr>max_results = 5, use_tavily = False, tavily_client = False, ddg = True\<rparr>,
      \<lparr>now = 10700, last_ddg_search_time = 10200, calls = 2,
        trace = [DdgClientCreated, DdgText 10000, DdgText 10100, Slept 500]\<rparr>)"
    using ddg_loop_success [where retry_count = 2, OF _ _ t2]
    by (simp add: search_def search_duckduckgo_def sleep_def)
  show ?thesis
    unfolding i run_searches.simps s1 snd_conv s2 by (simp add: min_ddg_delay_def)
qed

end
